theory Spec2Isabelle
  imports Main "HOL-Library.Word" "HOL-Library.Sublist" "HOL-Library.AList"
begin

section \<open>The recording webhook of the security-profiles-operator\<close>

text \<open>
  A shallow embedding of package \<open>recording\<close> (the admission webhook
  \<open>podSeccompRecorder\<close>): its \<open>Handle\<close> method, the pod mutator \<open>updatePod\<close>,
  the replica counters (\<open>getReplica\<close>, \<open>cleanupReplicas\<close>) and the reference tracker
  (\<open>setRecordingReferences\<close>, \<open>setActiveWorkloads\<close>, \<open>setFinalizers\<close>, \<open>anyPodMatch\<close>).
  Pointers that the Go code mutates in place become values that are passed in and
  returned; the object store behind the \<open>impl\<close> interface is an explicit world that
  every call of the interface may read and change.
\<close>

subsection \<open>Errors\<close>

text \<open>
  Go errors. \<open>StatusError\<close> is an API status error of the object store with its reason;
  \<open>Wrapped msg e\<close> is \<open>fmt.Errorf("msg: %w", e)\<close>; \<open>Err\<close> is any other error.
  \<open>kerrors.IsNotFound\<close> and \<open>kerrors.IsConflict\<close> look through the wrapping.
\<close>

datatype statusReason = StatusReasonNotFound | StatusReasonConflict | StatusReasonOther string

datatype error = StatusError statusReason | Err string | Wrapped string error

fun IsNotFound :: "error \<Rightarrow> bool" where
  "IsNotFound (StatusError r) = (r = StatusReasonNotFound)"
| "IsNotFound (Err m) = False"
| "IsNotFound (Wrapped m e) = IsNotFound e"

fun IsConflict :: "error \<Rightarrow> bool" where
  "IsConflict (StatusError r) = (r = StatusReasonConflict)"
| "IsConflict (Err m) = False"
| "IsConflict (Wrapped m e) = IsConflict e"

subsection \<open>Pods, recordings and admission requests\<close>

text \<open>
  Only the fields that the webhook reads or writes are kept. A nil pointer is \<open>None\<close>.
  A Go map is a partial function; reading a nil map behaves like reading an empty one,
  and the only write to \<open>pod.Annotations\<close> allocates the map first, so nil and empty
  annotations are one value here.
\<close>

type_synonym labelSet = "string \<rightharpoonup> string"

text \<open>\<open>labels.Selector\<close>, seen through its only method used here, \<open>Matches\<close>.\<close>

type_synonym selector = "labelSet \<Rightarrow> bool"

datatype labelSelectorOperator = OpIn | OpNotIn | OpExists | OpDoesNotExist

record labelSelectorRequirement =
  Req_Key :: string
  Req_Operator :: labelSelectorOperator
  Req_Values :: "string list"

record labelSelector =
  MatchLabels :: "(string \<times> string) list"
  MatchExpressions :: "labelSelectorRequirement list"

record seccompProfile =
  Seccomp_Type :: string
  Seccomp_LocalhostProfile :: "string option"

record seLinuxOptions =
  SELinux_User :: string
  SELinux_Role :: string
  SELinux_Type :: string
  SELinux_Level :: string

record securityContext =
  SC_SeccompProfile :: "seccompProfile option"
  SC_SELinuxOptions :: "seLinuxOptions option"

record container =
  Ctr_Name :: string
  Ctr_SecurityContext :: "securityContext option"

record pod =
  Pod_Name :: string
  Pod_GenerateName :: string
  Pod_Labels :: labelSet
  Pod_Annotations :: "string \<rightharpoonup> string"
  Pod_InitContainers :: "container list"
  Pod_Containers :: "container list"

text \<open>\<open>&corev1.Pod{}\<close>: the zero value.\<close>

definition emptyPod :: pod where
  "emptyPod = \<lparr>Pod_Name = '''', Pod_GenerateName = '''', Pod_Labels = Map.empty,
     Pod_Annotations = Map.empty, Pod_InitContainers = [], Pod_Containers = []\<rparr>"

text \<open>
  \<open>ProfileRecordingKind\<close> and \<open>ProfileRecorder\<close> are string types in Go; the
  constants the webhook compares against are constructors, every other string is
  \<open>OtherKind\<close> or \<open>OtherRecorder\<close>.
\<close>

datatype profileRecordingKind =
  ProfileRecordingKindSeccompProfile
| ProfileRecordingKindSelinuxProfile
| ProfileRecordingKindAppArmorProfile
| OtherKind string

datatype profileRecorder = ProfileRecorderLogs | ProfileRecorderBpf | OtherRecorder string

text \<open>
  A \<open>ProfileRecording\<close>: object metadata, \<open>Spec\<close> and \<open>Status\<close> flattened.
  \<open>PR_Containers = None\<close> is the nil slice of \<open>Spec.Containers\<close>.
\<close>

record profileRecording =
  PR_Name :: string
  PR_Namespace :: string
  PR_Finalizers :: "string list"
  PR_Kind :: profileRecordingKind
  PR_Recorder :: profileRecorder
  PR_PodSelector :: labelSelector
  PR_Containers :: "string list option"
  PR_ActiveWorkloads :: "string list"

datatype operation = Create | Update | Delete | Connect

record request =
  Req_Operation :: operation
  Req_Namespace :: string
  Req_Name :: string
  Req_Object :: string

text \<open>
  An admission response: \<open>admission.Allowed msg\<close>, \<open>admission.Errored code err\<close>, or
  \<open>admission.PatchResponseFromRaw original mutated\<close>.
\<close>

datatype response =
  Allowed string
| Errored nat error
| PatchResponseFromRaw string string

definition StatusInternalServerError :: nat where
  "StatusInternalServerError = 500"

definition StatusBadRequest :: nat where
  "StatusBadRequest = 400"

definition finalizer :: string where
  "finalizer = ''active-seccomp-profile-recording-lock''"

definition SeccompProfileTypeLocalhost :: string where
  "SeccompProfileTypeLocalhost = ''Localhost''"

subsection \<open>The collaborators of the webhook\<close>

text \<open>
  The \<open>impl\<close> interface. Its implementation talks to the object store and is not part
  of the webhook: it is a parameter. A call that reaches the store takes the world and
  returns the new one beside its result.
\<close>

record 'w impl =
  ListProfileRecordings :: "string \<Rightarrow> 'w \<Rightarrow> (error + profileRecording list) \<times> 'w"
  DecodePod :: "request \<Rightarrow> error + pod"
  LabelSelectorAsSelector :: "labelSelector \<Rightarrow> error + selector"
  ListRecordedPods :: "string \<Rightarrow> labelSelector \<Rightarrow> 'w \<Rightarrow> (error + pod list) \<times> 'w"
  GetProfileRecording :: "string \<Rightarrow> string \<Rightarrow> 'w \<Rightarrow> (error + profileRecording) \<times> 'w"
  UpdateResourceStatus :: "profileRecording \<Rightarrow> 'w \<Rightarrow> error option \<times> 'w"
  UpdateResource :: "profileRecording \<Rightarrow> 'w \<Rightarrow> error option \<times> 'w"
  GetOperatorNamespace :: string

text \<open>
  What the webhook takes from other packages: the methods \<open>CtrAnnotation\<close> and
  \<open>IsKindSupported\<close> of the recording's API type, \<open>json.Marshal\<close> on a pod, the
  constants \<open>config.LogEnricherProfile\<close> and \<open>config.SelinuxPermissiveProfile\<close>, and
  the number of further attempts that \<open>util.Retry\<close> makes. They are parameters.
\<close>

record env =
  CtrAnnotation :: "profileRecording \<Rightarrow> string \<Rightarrow> string \<Rightarrow> error + (string \<times> string)"
  IsKindSupported :: "profileRecording \<Rightarrow> bool"
  Marshal :: "pod \<Rightarrow> error + string"
  LogEnricherProfile :: string
  SelinuxPermissiveProfile :: string
  maxRetries :: nat

text \<open>One constructor for each place where the webhook writes to its logger.\<close>

datatype logEntry =
  LogCouldNotListRecordings error
| LogFailedToDecodePod error
| LogKindNotSupported profileRecordingKind
| LogCouldNotGetSelector error
| LogCouldNotListPods error
| LogFailedToEncodePod error
| LogAddingAnnotation string string string
| LogExistingAnnotation string string string
| LogSetSecurityContext string "securityContext option"

text \<open>
  The state of the process: the world behind \<open>impl\<close>, the replica counters
  \<open>p.replicas\<close>, and the log. \<open>p.replicas\<close> is a \<open>sync.Map\<close> that only ever holds
  string keys and \<open>uint\<close> values (64 bits), so the two dynamic type assertions on it
  cannot fail. It is kept as an association list with distinct keys whose order
  stands for the order in which \<open>Range\<close> visits the entries, which Go leaves open.
  \<open>mutatorCalls\<close> is a history variable: every call of \<open>updatePod\<close> appends the
  recording's name and the \<open>podChanged\<close> it returned.
\<close>

record 'w state =
  world :: 'w
  replicas :: "(string \<times> 64 word) list"
  log :: "logEntry list"
  mutatorCalls :: "(string \<times> bool) list"

text \<open>\<open>p.log.Info\<close> and \<open>p.log.Error\<close>: one more entry at the end of the log.\<close>

definition logWrite :: "logEntry \<Rightarrow> 'w state \<Rightarrow> 'w state" where
  "logWrite e st = st\<lparr>log := log st @ [e]\<rparr>"

subsection \<open>Formatting\<close>

text \<open>\<open>%d\<close> of an unsigned integer: its decimal digits, most significant first.\<close>

definition digit :: "nat \<Rightarrow> char" where
  "digit d = ''0123456789'' ! d"

fun fmt_d :: "nat \<Rightarrow> string" where
  "fmt_d n = (if n < 10 then [digit n] else fmt_d (n div 10) @ [digit (n mod 10)])"

declare fmt_d.simps [simp del]

subsection \<open>Replica counters\<close>

definition replicaKey :: "string \<Rightarrow> string \<Rightarrow> string" where
  "replicaKey recordingName podName = recordingName @ ''/'' @ podName"

text \<open>\<open>sync.Map.LoadOrStore\<close> and \<open>sync.Map.Store\<close>.\<close>

definition LoadOrStore :: "(string \<times> 'v) list \<Rightarrow> string \<Rightarrow> 'v \<Rightarrow> 'v \<times> (string \<times> 'v) list" where
  "LoadOrStore m k v =
     (case map_of m k of
        Some actual \<Rightarrow> (actual, m)
      | None \<Rightarrow> (v, m @ [(k, v)]))"

definition Store :: "(string \<times> 'v) list \<Rightarrow> string \<Rightarrow> 'v \<Rightarrow> (string \<times> 'v) list" where
  "Store m k v = AList.update k v m"

text \<open>
  The callback of \<open>p.replicas.Range\<close> in \<open>cleanupReplicas\<close>: the first visited entry
  whose key is a prefix of \<open>rKey\<close> is deleted and the iteration stops.
\<close>

fun rangeDelete :: "string \<Rightarrow> (string \<times> 'v) list \<Rightarrow> (string \<times> 'v) list" where
  "rangeDelete rKey [] = []"
| "rangeDelete rKey ((k, v) # kvs) =
     (if prefix k rKey then kvs else (k, v) # rangeDelete rKey kvs)"

definition cleanupReplicas :: "string \<Rightarrow> string \<Rightarrow> 'w state \<Rightarrow> 'w state" where
  "cleanupReplicas recordingName podName st =
     (let rKey = replicaKey recordingName podName
      in st\<lparr>replicas := rangeDelete rKey (replicas st)\<rparr>)"

text \<open>
  \<open>getReplica\<close>. The error of the source (a stored value that is not a \<open>uint\<close>) cannot
  arise with typed values; the result keeps the error channel of the source.
\<close>

definition getReplica :: "pod \<Rightarrow> profileRecording \<Rightarrow> 'w state \<Rightarrow> (error + string) \<times> 'w state" where
  "getReplica pod profileRecording st =
     (if Pod_Name pod = '''' \<and> Pod_GenerateName pod \<noteq> '''' then
        (let rKey = replicaKey (PR_Name profileRecording) (Pod_GenerateName pod);
             (v, m) = LoadOrStore (replicas st) rKey 0
         in (Inr (''-'' @ fmt_d (unat v)), st\<lparr>replicas := Store m rKey (v + 1)\<rparr>))
      else (Inr '''', st))"

subsection \<open>The pod mutator\<close>

text \<open>
  Modelled from the spec: \<open>util.Contains\<close>, which is not among the sources: whether a
  name is listed ("only those whose name is listed").
\<close>

definition Contains :: "string list \<Rightarrow> string \<Rightarrow> bool" where
  "Contains xs x = (x \<in> set xs)"

definition shouldRecordContainer :: "string \<Rightarrow> profileRecording \<Rightarrow> bool" where
  "shouldRecordContainer containerName profileRecording =
     (case PR_Containers profileRecording of
        None \<Rightarrow> True
      | Some cs \<Rightarrow> Contains cs containerName)"

definition updateSeccompSecurityContext :: "'w impl \<Rightarrow> env \<Rightarrow> container \<Rightarrow> container" where
  "updateSeccompSecurityContext impl env ctr =
     (let sc = (case Ctr_SecurityContext ctr of
                  None \<Rightarrow> \<lparr>SC_SeccompProfile = None, SC_SELinuxOptions = None\<rparr>
                | Some sc \<Rightarrow> sc);
          sp = (case SC_SeccompProfile sc of
                  None \<Rightarrow> \<lparr>Seccomp_Type = '''', Seccomp_LocalhostProfile = None\<rparr>
                | Some sp \<Rightarrow> sp);
          profile = ''operator/'' @ GetOperatorNamespace impl @ ''/'' @ LogEnricherProfile env @ ''.json''
      in ctr\<lparr>Ctr_SecurityContext := Some (sc\<lparr>SC_SeccompProfile :=
           Some (sp\<lparr>Seccomp_Type := SeccompProfileTypeLocalhost,
                     Seccomp_LocalhostProfile := Some profile\<rparr>)\<rparr>)\<rparr>)"

definition updateSelinuxSecurityContext :: "env \<Rightarrow> container \<Rightarrow> container" where
  "updateSelinuxSecurityContext env ctr =
     (let sc = (case Ctr_SecurityContext ctr of
                  None \<Rightarrow> \<lparr>SC_SeccompProfile = None, SC_SELinuxOptions = None\<rparr>
                | Some sc \<Rightarrow> sc);
          se = (case SC_SELinuxOptions sc of
                  None \<Rightarrow> \<lparr>SELinux_User = '''', SELinux_Role = '''', SELinux_Type = '''',
                           SELinux_Level = ''''\<rparr>
                | Some se \<Rightarrow> se)
      in ctr\<lparr>Ctr_SecurityContext := Some (sc\<lparr>SC_SELinuxOptions :=
           Some (se\<lparr>SELinux_Type := SelinuxPermissiveProfile env\<rparr>)\<rparr>)\<rparr>)"

definition updateSecurityContext ::
  "'w impl \<Rightarrow> env \<Rightarrow> container \<Rightarrow> profileRecording \<Rightarrow> 'w state \<Rightarrow> container \<times> 'w state" where
  "updateSecurityContext impl env ctr pr st =
     (if PR_Recorder pr \<noteq> ProfileRecorderLogs then (ctr, st)
      else
        (let ctr' = (case PR_Kind pr of
                       ProfileRecordingKindSeccompProfile \<Rightarrow> updateSeccompSecurityContext impl env ctr
                     | ProfileRecordingKindSelinuxProfile \<Rightarrow> updateSelinuxSecurityContext env ctr
                     | _ \<Rightarrow> ctr)
         in (ctr', logWrite (LogSetSecurityContext (Ctr_Name ctr') (Ctr_SecurityContext ctr')) st)))"

text \<open>
  \<open>ctrs\<close> holds pointers into the two container slices of the pod: a reference is the
  slice and the index.
\<close>

datatype ctrRef = InitContainerRef nat | ContainerRef nat

definition derefCtr :: "pod \<Rightarrow> ctrRef \<Rightarrow> container" where
  "derefCtr pod r =
     (case r of
        InitContainerRef i \<Rightarrow> Pod_InitContainers pod ! i
      | ContainerRef i \<Rightarrow> Pod_Containers pod ! i)"

definition assignCtr :: "pod \<Rightarrow> ctrRef \<Rightarrow> container \<Rightarrow> pod" where
  "assignCtr pod r c =
     (case r of
        InitContainerRef i \<Rightarrow> pod\<lparr>Pod_InitContainers := (Pod_InitContainers pod)[i := c]\<rparr>
      | ContainerRef i \<Rightarrow> pod\<lparr>Pod_Containers := (Pod_Containers pod)[i := c]\<rparr>)"

text \<open>The two collecting loops of \<open>updatePod\<close>; every index is in range.\<close>

definition collectCtrs :: "pod \<Rightarrow> profileRecording \<Rightarrow> ctrRef list" where
  "collectCtrs pod profileRecording =
     map InitContainerRef
       (filter (\<lambda>i. shouldRecordContainer (Ctr_Name (Pod_InitContainers pod ! i)) profileRecording)
          [0..<length (Pod_InitContainers pod)]) @
     map ContainerRef
       (filter (\<lambda>i. shouldRecordContainer (Ctr_Name (Pod_Containers pod ! i)) profileRecording)
          [0..<length (Pod_Containers pod)])"

text \<open>The body of the loop over \<open>ctrs\<close>, for one container.\<close>

definition updateCtr ::
  "'w impl \<Rightarrow> env \<Rightarrow> string \<Rightarrow> profileRecording \<Rightarrow> string \<Rightarrow> ctrRef \<Rightarrow>
   pod \<Rightarrow> bool \<Rightarrow> 'w state \<Rightarrow> error + (pod \<times> bool \<times> 'w state)" where
  "updateCtr impl env podName profileRecording replica r pod podChanged st =
     (let ctr = derefCtr pod r in
      case CtrAnnotation env profileRecording replica (Ctr_Name ctr) of
        Inl err \<Rightarrow> Inl err
      | Inr (key, value) \<Rightarrow>
          (let (ctr', st1) = updateSecurityContext impl env ctr profileRecording st;
               pod1 = assignCtr pod r ctr'
           in case Pod_Annotations pod1 key of
                None \<Rightarrow>
                  Inr (pod1\<lparr>Pod_Annotations := (Pod_Annotations pod1)(key \<mapsto> value)\<rparr>, True,
                       logWrite (LogAddingAnnotation key value (Pod_Name pod1)) st1)
              | Some existingValue \<Rightarrow>
                  Inr (pod1, podChanged,
                       if existingValue \<noteq> value
                       then logWrite (LogExistingAnnotation podName existingValue value) st1
                       else st1)))"

fun updateCtrs ::
  "'w impl \<Rightarrow> env \<Rightarrow> string \<Rightarrow> profileRecording \<Rightarrow> string \<Rightarrow> ctrRef list \<Rightarrow>
   pod \<Rightarrow> bool \<Rightarrow> 'w state \<Rightarrow> (error + bool) \<times> pod \<times> 'w state" where
  "updateCtrs impl env podName profileRecording replica [] pod podChanged st =
     (Inr podChanged, pod, st)"
| "updateCtrs impl env podName profileRecording replica (r # rs) pod podChanged st =
     (case updateCtr impl env podName profileRecording replica r pod podChanged st of
        Inl err \<Rightarrow> (Inl err, pod, st)
      | Inr (pod', podChanged', st') \<Rightarrow>
          updateCtrs impl env podName profileRecording replica rs pod' podChanged' st')"

text \<open>
  \<open>updatePod\<close> returns \<open>podChanged\<close> or an error, beside the pod it has mutated in place
  and the new state.
\<close>

definition updatePodBody ::
  "'w impl \<Rightarrow> env \<Rightarrow> pod \<Rightarrow> string \<Rightarrow> profileRecording \<Rightarrow> 'w state \<Rightarrow>
   (error + bool) \<times> pod \<times> 'w state" where
  "updatePodBody impl env pod podName profileRecording st =
     (let ctrs = collectCtrs pod profileRecording in
      case getReplica pod profileRecording st of
        (Inl err, st1) \<Rightarrow> (Inl err, pod, st1)
      | (Inr replica, st1) \<Rightarrow>
          updateCtrs impl env podName profileRecording replica ctrs pod False st1)"

definition returnedPodChanged :: "error + bool \<Rightarrow> bool" where
  "returnedPodChanged res = (case res of Inl err \<Rightarrow> False | Inr b \<Rightarrow> b)"

definition updatePod ::
  "'w impl \<Rightarrow> env \<Rightarrow> pod \<Rightarrow> string \<Rightarrow> profileRecording \<Rightarrow> 'w state \<Rightarrow>
   (error + bool) \<times> pod \<times> 'w state" where
  "updatePod impl env pod podName profileRecording st =
     (case updatePodBody impl env pod podName profileRecording st of
        (res, pod', st') \<Rightarrow>
          (res, pod', st'\<lparr>mutatorCalls := mutatorCalls st' @
             [(PR_Name profileRecording, returnedPodChanged res)]\<rparr>))"

subsection \<open>The reference tracker\<close>

text \<open>
  Modelled from the spec: \<open>utils.RemoveIfExists\<close> and \<open>utils.AppendIfNotExists\<close>,
  which are not among the sources: "remove the current pod name if present" and "add
  the current pod name if ... it is not already present".
\<close>

definition RemoveIfExists :: "string list \<Rightarrow> string \<Rightarrow> string list" where
  "RemoveIfExists xs x = remove1 x xs"

definition AppendIfNotExists :: "string list \<Rightarrow> string \<Rightarrow> string list" where
  "AppendIfNotExists xs x = (if x \<in> set xs then xs else xs @ [x])"

text \<open>
  \<open>controllerutil.ContainsFinalizer\<close>, \<open>AddFinalizer\<close> and \<open>RemoveFinalizer\<close> of the
  controller-runtime library, on the recording's finalizers.
\<close>

definition ContainsFinalizer :: "profileRecording \<Rightarrow> string \<Rightarrow> bool" where
  "ContainsFinalizer o' f = (f \<in> set (PR_Finalizers o'))"

definition AddFinalizer :: "profileRecording \<Rightarrow> string \<Rightarrow> profileRecording" where
  "AddFinalizer o' f =
     (if f \<in> set (PR_Finalizers o') then o' else o'\<lparr>PR_Finalizers := PR_Finalizers o' @ [f]\<rparr>)"

definition RemoveFinalizer :: "profileRecording \<Rightarrow> string \<Rightarrow> profileRecording" where
  "RemoveFinalizer o' f = o'\<lparr>PR_Finalizers := filter (\<lambda>x. x \<noteq> f) (PR_Finalizers o')\<rparr>"

text \<open>The loop of \<open>anyPodMatch\<close>: is there a pod with another name than \<open>podName\<close>.\<close>

fun otherPodFound :: "string \<Rightarrow> pod list \<Rightarrow> bool" where
  "otherPodFound podName [] = False"
| "otherPodFound podName (p # ps) =
     (if podName = Pod_Name p then otherPodFound podName ps else True)"

definition anyPodMatch :: "operation \<Rightarrow> selector \<Rightarrow> labelSet \<Rightarrow> string \<Rightarrow> pod list \<Rightarrow> bool" where
  "anyPodMatch op selector podLabels podName foundPods =
     (if length foundPods > 0 \<and> op \<noteq> Delete then True
      else if length foundPods > 0 \<and> otherPodFound podName foundPods then True
      else if op \<noteq> Delete \<and> selector podLabels then True
      else False)"

definition newActiveWorkloads ::
  "operation \<Rightarrow> selector \<Rightarrow> string \<Rightarrow> labelSet \<Rightarrow> pod list \<Rightarrow> string list" where
  "newActiveWorkloads op selector podName podLabels recordedPods =
     (let names = map Pod_Name recordedPods in
      if op = Delete then RemoveIfExists names podName
      else if selector podLabels then AppendIfNotExists names podName
      else names)"

definition setActiveWorkloads ::
  "'w impl \<Rightarrow> operation \<Rightarrow> profileRecording \<Rightarrow> selector \<Rightarrow> string \<Rightarrow> labelSet \<Rightarrow> pod list \<Rightarrow>
   'w state \<Rightarrow> error option \<times> profileRecording \<times> 'w state" where
  "setActiveWorkloads impl op profileRecording selector podName podLabels recordedPods st =
     (let profileRecording' = profileRecording\<lparr>PR_ActiveWorkloads :=
            newActiveWorkloads op selector podName podLabels recordedPods\<rparr>;
          (err, w) = UpdateResourceStatus impl profileRecording' (world st)
      in (err, profileRecording', st\<lparr>world := w\<rparr>))"

definition setFinalizers ::
  "'w impl \<Rightarrow> operation \<Rightarrow> profileRecording \<Rightarrow> selector \<Rightarrow> string \<Rightarrow> labelSet \<Rightarrow> pod list \<Rightarrow>
   'w state \<Rightarrow> error option \<times> profileRecording \<times> 'w state" where
  "setFinalizers impl op profileRecording selector podName podLabels recordedPods st =
     (let (profileRecording', st1) =
            (if anyPodMatch op selector podLabels podName recordedPods then
               (if \<not> ContainsFinalizer profileRecording finalizer
                then (AddFinalizer profileRecording finalizer, st)
                else (profileRecording, st))
             else
               (if ContainsFinalizer profileRecording finalizer
                then (RemoveFinalizer profileRecording finalizer,
                      cleanupReplicas (PR_Name profileRecording) podName st)
                else (profileRecording, st)));
          (err, w) = UpdateResource impl profileRecording' (world st1)
      in (err, profileRecording', st1\<lparr>world := w\<rparr>))"

definition setRecordingReferences ::
  "'w impl \<Rightarrow> operation \<Rightarrow> profileRecording \<Rightarrow> selector \<Rightarrow> string \<Rightarrow> labelSet \<Rightarrow> pod list \<Rightarrow>
   'w state \<Rightarrow> error option \<times> 'w state" where
  "setRecordingReferences impl op profileRecording selector podName podLabels recordedPods st =
     (case GetProfileRecording impl (PR_Name profileRecording) (PR_Namespace profileRecording)
             (world st) of
        (Inl err, w) \<Rightarrow>
          (if IsNotFound err then (None, st\<lparr>world := w\<rparr>)
           else (Some (Wrapped ''cannot retrieve profilerecording'' err), st\<lparr>world := w\<rparr>))
      | (Inr fetched, w) \<Rightarrow>
          (case setActiveWorkloads impl op fetched selector podName podLabels recordedPods
                  (st\<lparr>world := w\<rparr>) of
             (Some err, fetched1, st1) \<Rightarrow> (Some (Wrapped ''cannot set active workloads'' err), st1)
           | (None, fetched1, st1) \<Rightarrow>
               (case setFinalizers impl op fetched1 selector podName podLabels recordedPods st1 of
                  (err, fetched2, st2) \<Rightarrow> (err, st2))))"

subsection \<open>The admission handler\<close>

text \<open>
  Modelled from the spec: \<open>util.Retry\<close>, which is not among the sources: on an error
  that satisfies the retry condition the whole unit is run again, "bounded by a small
  retry budget"; the first success or other error is returned, and so is the error
  of the last attempt.
\<close>

fun Retry :: "nat \<Rightarrow> ('s \<Rightarrow> error option \<times> 's) \<Rightarrow> (error \<Rightarrow> bool) \<Rightarrow> 's \<Rightarrow> error option \<times> 's" where
  "Retry 0 fn retryCondition s = fn s"
| "Retry (Suc n) fn retryCondition s =
     (case fn s of
        (None, s') \<Rightarrow> (None, s')
      | (Some err, s') \<Rightarrow>
          (if retryCondition err then Retry n fn retryCondition s' else (Some err, s')))"

text \<open>The closure that \<open>Handle\<close> passes to \<open>util.Retry\<close>.\<close>

definition addPodTracking ::
  "'w impl \<Rightarrow> operation \<Rightarrow> profileRecording \<Rightarrow> selector \<Rightarrow> string \<Rightarrow> labelSet \<Rightarrow> pod list \<Rightarrow>
   'w state \<Rightarrow> error option \<times> 'w state" where
  "addPodTracking impl op item selector podName podLabels recordedPods st =
     (case setRecordingReferences impl op item selector podName podLabels recordedPods st of
        (Some err, st') \<Rightarrow> (Some (Wrapped ''adding pod tracking'' err), st')
      | (None, st') \<Rightarrow> (None, st'))"

text \<open>
  The body of the loop over the recordings: \<open>Inl\<close> is an early return of \<open>Handle\<close>
  with its response, \<open>Inr\<close> goes on with the pod and \<open>podChanged\<close>.
\<close>

definition handleItem ::
  "'w impl \<Rightarrow> env \<Rightarrow> request \<Rightarrow> string \<Rightarrow> labelSet \<Rightarrow> profileRecording \<Rightarrow>
   pod \<Rightarrow> bool \<Rightarrow> 'w state \<Rightarrow> (response \<times> 'w state) + (pod \<times> bool \<times> 'w state)" where
  "handleItem impl env req podName podLabels item pod podChanged st =
     (if \<not> IsKindSupported env item
      then Inr (pod, podChanged, logWrite (LogKindNotSupported (PR_Kind item)) st)
      else
        case LabelSelectorAsSelector impl (PR_PodSelector item) of
          Inl err \<Rightarrow> Inl (Errored StatusInternalServerError err, logWrite (LogCouldNotGetSelector err) st)
        | Inr selector \<Rightarrow>
            (case ListRecordedPods impl (Req_Namespace req) (PR_PodSelector item) (world st) of
               (Inl err, w) \<Rightarrow>
                 Inl (Errored StatusInternalServerError err,
                      logWrite (LogCouldNotListPods err) (st\<lparr>world := w\<rparr>))
             | (Inr recordedPods, w) \<Rightarrow>
                 (case Retry (maxRetries env)
                         (addPodTracking impl (Req_Operation req) item selector podName podLabels
                            recordedPods)
                         IsConflict (st\<lparr>world := w\<rparr>) of
                    (Some err, st1) \<Rightarrow> Inl (Errored StatusInternalServerError err, st1)
                  | (None, st1) \<Rightarrow>
                      (if selector podLabels then
                         (case updatePod impl env pod podName item st1 of
                            (Inl err, pod', st2) \<Rightarrow> Inl (Errored StatusInternalServerError err, st2)
                          | (Inr podChanged', pod', st2) \<Rightarrow> Inr (pod', podChanged', st2))
                       else Inr (pod, podChanged, st1)))))"

fun handleItems ::
  "'w impl \<Rightarrow> env \<Rightarrow> request \<Rightarrow> string \<Rightarrow> labelSet \<Rightarrow> profileRecording list \<Rightarrow>
   pod \<Rightarrow> bool \<Rightarrow> 'w state \<Rightarrow> (response \<times> 'w state) + (pod \<times> bool \<times> 'w state)" where
  "handleItems impl env req podName podLabels [] pod podChanged st = Inr (pod, podChanged, st)"
| "handleItems impl env req podName podLabels (item # items) pod podChanged st =
     (case handleItem impl env req podName podLabels item pod podChanged st of
        Inl r \<Rightarrow> Inl r
      | Inr (pod', podChanged', st') \<Rightarrow>
          handleItems impl env req podName podLabels items pod' podChanged' st')"

text \<open>The pod that \<open>Handle\<close> works on: decoded, except on Delete.\<close>

definition requestPod :: "'w impl \<Rightarrow> request \<Rightarrow> error + pod" where
  "requestPod impl req =
     (if Req_Operation req \<noteq> Delete then DecodePod impl req else Inr emptyPod)"

definition Handle :: "'w impl \<Rightarrow> env \<Rightarrow> request \<Rightarrow> 'w state \<Rightarrow> response \<times> 'w state" where
  "Handle impl env req st =
     (case ListProfileRecordings impl (Req_Namespace req) (world st) of
        (Inl err, w) \<Rightarrow>
          (Errored StatusInternalServerError err,
           logWrite (LogCouldNotListRecordings err) (st\<lparr>world := w\<rparr>))
      | (Inr items, w) \<Rightarrow>
          (case requestPod impl req of
             Inl err \<Rightarrow>
               (Errored StatusBadRequest err, logWrite (LogFailedToDecodePod err) (st\<lparr>world := w\<rparr>))
           | Inr pod \<Rightarrow>
               (let podName = (if Req_Name req = '''' then Pod_GenerateName pod else Req_Name req);
                    podLabels = Pod_Labels pod
                in case handleItems impl env req podName podLabels items pod False
                          (st\<lparr>world := w\<rparr>) of
                     Inl r \<Rightarrow> r
                   | Inr (pod', podChanged, st') \<Rightarrow>
                       (if \<not> podChanged then (Allowed ''pod unchanged'', st')
                        else
                          case Marshal env pod' of
                            Inl err \<Rightarrow>
                              (Errored StatusInternalServerError err,
                               logWrite (LogFailedToEncodePod err) st')
                          | Inr marshaledPod \<Rightarrow>
                              (PatchResponseFromRaw (Req_Object req) marshaledPod, st')))))"

section \<open>Notions used in the statements\<close>

text \<open>The counter that \<open>LoadOrStore\<close> observes for a key: 0 when the key is absent.\<close>

definition counterOf :: "(string \<times> 64 word) list \<Rightarrow> string \<Rightarrow> 64 word" where
  "counterOf m k = (case map_of m k of None \<Rightarrow> 0 | Some v \<Rightarrow> v)"

text \<open>\<open>n\<close> calls of \<open>getReplica\<close> for the same pod and recording, one after the other.\<close>

fun successiveReplicas ::
  "nat \<Rightarrow> pod \<Rightarrow> profileRecording \<Rightarrow> 'w state \<Rightarrow> string list \<times> 'w state" where
  "successiveReplicas 0 pod pr st = ([], st)"
| "successiveReplicas (Suc n) pod pr st =
     (case getReplica pod pr st of
        (Inl err, st') \<Rightarrow> ([], st')
      | (Inr replica, st') \<Rightarrow>
          (case successiveReplicas n pod pr st' of (rs, st'') \<Rightarrow> (replica # rs, st'')))"

text \<open>
  The spec's reading of the cleanup: no counter is left whose key is prefixed by the
  recording's name.
\<close>

definition countersOfRecordingRemoved :: "string \<Rightarrow> (string \<times> 64 word) list \<Rightarrow> bool" where
  "countersOfRecordingRemoved recordingName m = list_all (\<lambda>(k, v). \<not> prefix recordingName k) m"

text \<open>
  The spec's rule for the finalizer (section 4.3, step 4): the snapshot is non-empty and
  the operation is not a Delete of the last remaining pod, or some pod of the snapshot
  is not the one being deleted.
\<close>

definition specFinalizerNeeded :: "operation \<Rightarrow> string \<Rightarrow> pod list \<Rightarrow> bool" where
  "specFinalizerNeeded op podName snapshot =
     (snapshot \<noteq> [] \<and> \<not> (op = Delete \<and> list_all (\<lambda>p. Pod_Name p = podName) snapshot) \<or>
      list_ex (\<lambda>p. Pod_Name p \<noteq> podName) snapshot)"

text \<open>
  The container that \<open>updateSecurityContext\<close> leaves behind, apart from the log, and
  whether a reference points into the pod.
\<close>

definition securedContainer :: "'w impl \<Rightarrow> env \<Rightarrow> profileRecording \<Rightarrow> container \<Rightarrow> container" where
  "securedContainer impl env pr ctr =
     (if PR_Recorder pr \<noteq> ProfileRecorderLogs then ctr
      else case PR_Kind pr of
             ProfileRecordingKindSeccompProfile \<Rightarrow> updateSeccompSecurityContext impl env ctr
           | ProfileRecordingKindSelinuxProfile \<Rightarrow> updateSelinuxSecurityContext env ctr
           | _ \<Rightarrow> ctr)"

definition validRef :: "pod \<Rightarrow> ctrRef \<Rightarrow> bool" where
  "validRef pod r =
     (case r of
        InitContainerRef i \<Rightarrow> i < length (Pod_InitContainers pod)
      | ContainerRef i \<Rightarrow> i < length (Pod_Containers pod))"

text \<open>
  Whether the loop of \<open>Handle\<close> reaches the call of \<open>updatePod\<close> for a recording:
  the kind is supported and the recording's selector matches the labels.
\<close>

definition selectorMatches :: "'w impl \<Rightarrow> profileRecording \<Rightarrow> labelSet \<Rightarrow> bool" where
  "selectorMatches impl item podLabels =
     (case LabelSelectorAsSelector impl (PR_PodSelector item) of
        Inl err \<Rightarrow> False
      | Inr selector \<Rightarrow> selector podLabels)"

definition mutatorInvoked :: "'w impl \<Rightarrow> env \<Rightarrow> labelSet \<Rightarrow> profileRecording \<Rightarrow> bool" where
  "mutatorInvoked impl env podLabels item =
     (IsKindSupported env item \<and> selectorMatches impl item podLabels)"

definition isErrored :: "response \<Rightarrow> bool" where
  "isErrored r = (case r of Errored code err \<Rightarrow> True | _ \<Rightarrow> False)"

definition isPatch :: "response \<Rightarrow> bool" where
  "isPatch r = (case r of PatchResponseFromRaw original mutated \<Rightarrow> True | _ \<Rightarrow> False)"

section \<open>Example inputs\<close>

text \<open>Concrete inputs on which the statements below are run.\<close>

definition examplePR :: profileRecording where
  "examplePR = \<lparr>PR_Name = ''rec1'', PR_Namespace = ''ns'', PR_Finalizers = [],
     PR_Kind = ProfileRecordingKindSeccompProfile, PR_Recorder = ProfileRecorderLogs,
     PR_PodSelector = \<lparr>MatchLabels = [], MatchExpressions = []\<rparr>,
     PR_Containers = None, PR_ActiveWorkloads = []\<rparr>"

definition initState :: "'w \<Rightarrow> 'w state" where
  "initState w = \<lparr>world = w, replicas = [], log = [], mutatorCalls = []\<rparr>"

text \<open>
  A small object store and an implementation of \<open>impl\<close> over it, on which the webhook
  is run in the examples: recordings are found by name and namespace, pods are listed
  by selector, and an update replaces the stored recording. \<open>selectorOf\<close> reads a
  label selector the way Kubernetes does; \<open>exampleEnv\<close> builds the annotation after
  the annotation contract \<open><prefix>/<recordingName><replica>_<containerName>\<close>.
\<close>

record store =
  Recordings :: "profileRecording list"
  Pods :: "pod list"

definition requirementMatches :: "labelSet \<Rightarrow> labelSelectorRequirement \<Rightarrow> bool" where
  "requirementMatches ls r =
     (case Req_Operator r of
        OpIn \<Rightarrow> (case ls (Req_Key r) of None \<Rightarrow> False | Some v \<Rightarrow> v \<in> set (Req_Values r))
      | OpNotIn \<Rightarrow> (case ls (Req_Key r) of None \<Rightarrow> True | Some v \<Rightarrow> v \<notin> set (Req_Values r))
      | OpExists \<Rightarrow> ls (Req_Key r) \<noteq> None
      | OpDoesNotExist \<Rightarrow> ls (Req_Key r) = None)"

definition selectorOf :: "labelSelector \<Rightarrow> selector" where
  "selectorOf sel ls =
     (list_all (\<lambda>(k, v). ls k = Some v) (MatchLabels sel) \<and>
      list_all (requirementMatches ls) (MatchExpressions sel))"

definition sameObject :: "profileRecording \<Rightarrow> profileRecording \<Rightarrow> bool" where
  "sameObject a b = (PR_Name a = PR_Name b \<and> PR_Namespace a = PR_Namespace b)"

definition exampleImpl :: "pod \<Rightarrow> store impl" where
  "exampleImpl decoded =
     \<lparr>ListProfileRecordings = (\<lambda>ns w. (Inr (filter (\<lambda>r. PR_Namespace r = ns) (Recordings w)), w)),
      DecodePod = (\<lambda>req. Inr decoded),
      LabelSelectorAsSelector = (\<lambda>sel. Inr (selectorOf sel)),
      ListRecordedPods = (\<lambda>ns sel w. (Inr (filter (\<lambda>p. selectorOf sel (Pod_Labels p)) (Pods w)), w)),
      GetProfileRecording = (\<lambda>name ns w.
         (case find (\<lambda>r. PR_Name r = name \<and> PR_Namespace r = ns) (Recordings w) of
            None \<Rightarrow> (Inl (StatusError StatusReasonNotFound), w)
          | Some r \<Rightarrow> (Inr r, w))),
      UpdateResourceStatus = (\<lambda>r w.
         (None, w\<lparr>Recordings := map (\<lambda>x. if sameObject x r
              then x\<lparr>PR_ActiveWorkloads := PR_ActiveWorkloads r\<rparr> else x) (Recordings w)\<rparr>)),
      UpdateResource = (\<lambda>r w.
         (None, w\<lparr>Recordings := map (\<lambda>x. if sameObject x r then r else x) (Recordings w)\<rparr>)),
      GetOperatorNamespace = ''security-profiles-operator''\<rparr>"

definition exampleEnv :: env where
  "exampleEnv =
     \<lparr>CtrAnnotation = (\<lambda>pr replica ctrName.
         Inr (''prefix/'' @ PR_Name pr @ replica @ ''_'' @ ctrName, ''pathB'')),
      IsKindSupported = (\<lambda>pr. PR_Kind pr = ProfileRecordingKindSeccompProfile \<or>
         PR_Kind pr = ProfileRecordingKindSelinuxProfile),
      Marshal = (\<lambda>p. Inr ''pod''),
      LogEnricherProfile = ''log-enricher-trace'',
      SelinuxPermissiveProfile = ''selinuxrecording.process'',
      maxRetries = 3\<rparr>"

definition emptyStore :: store where
  "emptyStore = \<lparr>Recordings = [], Pods = []\<rparr>"

text \<open>
  A pod with the containers \<open>app\<close> and \<open>sidecar\<close> that already carries the annotation
  \<open>prefix/rec1_app\<close> with the value \<open>pathA\<close>.
\<close>

definition examplePod :: pod where
  "examplePod =
     \<lparr>Pod_Name = ''p1'', Pod_GenerateName = '''', Pod_Labels = [''app'' \<mapsto> ''web''],
      Pod_Annotations = [''prefix/rec1_app'' \<mapsto> ''pathA''],
      Pod_InitContainers = [],
      Pod_Containers = [\<lparr>Ctr_Name = ''app'', Ctr_SecurityContext = None\<rparr>,
                        \<lparr>Ctr_Name = ''sidecar'', Ctr_SecurityContext = None\<rparr>]\<rparr>"

text \<open>Requests and stores for the examples.\<close>

definition exampleRequest :: "operation \<Rightarrow> request" where
  "exampleRequest op =
     \<lparr>Req_Operation = op, Req_Namespace = ''ns'', Req_Name = ''p1'', Req_Object = ''raw''\<rparr>"

definition exampleStore :: "profileRecording list \<Rightarrow> store" where
  "exampleStore rs = \<lparr>Recordings = rs, Pods = []\<rparr>"

section \<open>Properties\<close>

subsection \<open>Replica suffixes\<close>

lemma digit_inj: "d < 10 \<Longrightarrow> e < 10 \<Longrightarrow> digit d = digit e \<Longrightarrow> d = e"
  unfolding digit_def
  by (subst (asm) nth_eq_iff_index_eq) simp_all

lemma fmt_d_nonempty: "fmt_d n \<noteq> []"
  by (subst fmt_d.simps) simp

lemma fmt_d_inj: "fmt_d n = fmt_d m \<Longrightarrow> n = m"
proof (induction n arbitrary: m rule: fmt_d.induct)
  case (1 n)
  show ?case
  proof (cases "n < 10")
    case True
    note n = this
    show ?thesis
    proof (cases "m < 10")
      case True
      with n "1.prems" show ?thesis
        by (simp add: fmt_d.simps [of n] fmt_d.simps [of m] digit_inj)
    next
      case False
      with n "1.prems" fmt_d_nonempty [of "m div 10"] show ?thesis
        by (simp add: fmt_d.simps [of n] fmt_d.simps [of m])
    qed
  next
    case False
    note n = this
    show ?thesis
    proof (cases "m < 10")
      case True
      with n "1.prems" fmt_d_nonempty [of "n div 10"] show ?thesis
        by (simp add: fmt_d.simps [of n] fmt_d.simps [of m])
    next
      case False
      with n "1.prems" have eq: "fmt_d (n div 10) = fmt_d (m div 10)"
          "digit (n mod 10) = digit (m mod 10)"
        by (simp_all add: fmt_d.simps [of n] fmt_d.simps [of m])
      from "1.IH" [OF n eq(1)] have "n div 10 = m div 10" .
      moreover from eq(2) have "n mod 10 = m mod 10"
        by (intro digit_inj) simp_all
      ultimately show ?thesis
        by (metis div_mult_mod_eq)
    qed
  qed
qed

lemma suffixes_distinct: "distinct (map (\<lambda>i. ''-'' @ fmt_d i) [0..<n])"
  by (auto simp: distinct_map inj_on_def dest: fmt_d_inj)

lemma unat_of_nat_64: "i < 2 ^ 64 \<Longrightarrow> unat (of_nat i :: 64 word) = i"
  by (simp add: unat_of_nat)

lemma getReplica_named:
  "Pod_Name pod \<noteq> '''' \<or> Pod_GenerateName pod = '''' \<Longrightarrow> getReplica pod pr st = (Inr '''', st)"
  by (auto simp: getReplica_def)

lemma update_append_absent:
  "map_of m k = None \<Longrightarrow> AList.update k v (m @ [(k, v0)]) = AList.update k v m"
  by (induction m) (auto split: if_splits)

lemma getReplica_generated:
  "Pod_Name pod = '''' \<Longrightarrow> Pod_GenerateName pod \<noteq> '''' \<Longrightarrow>
   getReplica pod pr st =
     (Inr (''-'' @ fmt_d (unat (counterOf (replicas st) (replicaKey (PR_Name pr) (Pod_GenerateName pod))))),
      st\<lparr>replicas := AList.update (replicaKey (PR_Name pr) (Pod_GenerateName pod))
          (counterOf (replicas st) (replicaKey (PR_Name pr) (Pod_GenerateName pod)) + 1)
          (replicas st)\<rparr>)"
  by (auto simp: getReplica_def LoadOrStore_def Store_def counterOf_def Let_def
      update_append_absent split: option.splits)

lemma counterOf_update:
  "counterOf (AList.update k v m) k' = (if k' = k then v else counterOf m k')"
  by (simp add: counterOf_def update_conv')

lemma successiveReplicas_fst:
  "Pod_Name pod = '''' \<Longrightarrow> Pod_GenerateName pod \<noteq> '''' \<Longrightarrow>
   fst (successiveReplicas n pod pr st) =
     map (\<lambda>i. ''-'' @ fmt_d (unat (counterOf (replicas st)
            (replicaKey (PR_Name pr) (Pod_GenerateName pod)) + of_nat i))) [0..<n]"
proof (induction n arbitrary: st)
  case 0
  then show ?case by simp
next
  case (Suc n)
  let ?k = "replicaKey (PR_Name pr) (Pod_GenerateName pod)"
  let ?st' = "st\<lparr>replicas := AList.update ?k (counterOf (replicas st) ?k + 1) (replicas st)\<rparr>"
  have step: "getReplica pod pr st = (Inr (''-'' @ fmt_d (unat (counterOf (replicas st) ?k))), ?st')"
    using Suc.prems by (rule getReplica_generated)
  have ih: "fst (successiveReplicas n pod pr ?st') =
     map (\<lambda>i. ''-'' @ fmt_d (unat (counterOf (replicas st) ?k + 1 + of_nat i))) [0..<n]"
    using Suc.IH [OF Suc.prems, of ?st'] by (simp add: counterOf_update)
  obtain rs st'' where r: "successiveReplicas n pod pr ?st' = (rs, st'')"
    by (cases "successiveReplicas n pod pr ?st'")
  with ih have rs: "rs = map (\<lambda>i. ''-'' @ fmt_d (unat (counterOf (replicas st) ?k + 1 + of_nat i))) [0..<n]"
    by simp
  have "fst (successiveReplicas (Suc n) pod pr st) =
      (''-'' @ fmt_d (unat (counterOf (replicas st) ?k))) # rs"
    by (simp add: step r)
  also have "\<dots> = map (\<lambda>i. ''-'' @ fmt_d (unat (counterOf (replicas st) ?k + of_nat i))) [0..<Suc n]"
    unfolding map_upt_Suc rs by (simp add: add.assoc)
  finally show ?case .
qed

text \<open>
  C6, as the code has it. Replica resolution. A pod with a name, or without a
  generate-name, gets the empty suffix and the state (with it the counter map) is
  returned as it was. Otherwise the suffix is a hyphen and the decimal counter value
  that the key \<open>replicaKey recording generateName\<close> held before the call (0 when
  absent), and the key then holds that value plus one, wrapping around at the end of
  the \<open>uint\<close> range. So from a map without the key the first call returns \<open>-0\<close>, and
  \<open>n\<close> calls in sequence return \<open>-0\<close>, ..., \<open>-(n-1)\<close>, all distinct, for every \<open>n\<close> of
  at most \<open>2 ^ 64\<close>.
\<close>

theorem getReplica_suffix:
  fixes pod :: pod and pr :: profileRecording and st :: "'w state" and n :: nat
  defines "rKey \<equiv> replicaKey (PR_Name pr) (Pod_GenerateName pod)"
  shows
  "(Pod_Name pod \<noteq> '''' \<or> Pod_GenerateName pod = '''' \<longrightarrow>
      getReplica pod pr st = (Inr '''', st)) \<and>
   (Pod_Name pod = '''' \<and> Pod_GenerateName pod \<noteq> '''' \<longrightarrow>
      getReplica pod pr st =
        (Inr (''-'' @ fmt_d (unat (counterOf (replicas st) rKey))),
         st\<lparr>replicas := AList.update rKey (counterOf (replicas st) rKey + 1) (replicas st)\<rparr>) \<and>
      (map_of (replicas st) rKey = None \<longrightarrow>
         fst (getReplica pod pr st) = Inr ''-0'' \<and>
         (n \<le> 2 ^ 64 \<longrightarrow>
            fst (successiveReplicas n pod pr st) = map (\<lambda>i. ''-'' @ fmt_d i) [0..<n] \<and>
            distinct (fst (successiveReplicas n pod pr st)))))"
proof (intro conjI impI)
  assume "Pod_Name pod \<noteq> '''' \<or> Pod_GenerateName pod = ''''"
  then show "getReplica pod pr st = (Inr '''', st)"
    by (rule getReplica_named)
next
  assume gen: "Pod_Name pod = '''' \<and> Pod_GenerateName pod \<noteq> ''''"
  then show g: "getReplica pod pr st =
        (Inr (''-'' @ fmt_d (unat (counterOf (replicas st) rKey))),
         st\<lparr>replicas := AList.update rKey (counterOf (replicas st) rKey + 1) (replicas st)\<rparr>)"
    unfolding rKey_def by (simp add: getReplica_generated)
  assume fresh: "map_of (replicas st) rKey = None"
  then have zero: "counterOf (replicas st) rKey = 0"
    by (simp add: counterOf_def)
  show "fst (getReplica pod pr st) = Inr ''-0''"
    by (simp add: g zero fmt_d.simps [of 0] digit_def)
  assume n: "n \<le> 2 ^ 64"
  have "fst (successiveReplicas n pod pr st) =
      map (\<lambda>i. ''-'' @ fmt_d (unat (of_nat i :: 64 word))) [0..<n]"
    using gen zero successiveReplicas_fst [of pod n pr st] by (simp add: rKey_def)
  also have "\<dots> = map (\<lambda>i. ''-'' @ fmt_d i) [0..<n]"
    using n by (intro map_cong refl) (simp add: unat_of_nat_64)
  finally show s: "fst (successiveReplicas n pod pr st) = map (\<lambda>i. ''-'' @ fmt_d i) [0..<n]" .
  show "distinct (fst (successiveReplicas n pod pr st))"
    unfolding s by (rule suffixes_distinct)
qed

theorem getReplica_suffix_witness:
  "getReplica (emptyPod\<lparr>Pod_Name := ''web-1''\<rparr>) examplePR (initState ()) = (Inr '''', initState ()) \<and>
   fst (getReplica (emptyPod\<lparr>Pod_GenerateName := ''web-''\<rparr>) examplePR (initState ())) = Inr ''-0'' \<and>
   fst (successiveReplicas 3 (emptyPod\<lparr>Pod_GenerateName := ''web-''\<rparr>) examplePR (initState ())) =
     [''-0'', ''-1'', ''-2''] \<and>
   distinct (fst (successiveReplicas 3 (emptyPod\<lparr>Pod_GenerateName := ''web-''\<rparr>) examplePR (initState ())))"
proof -
  have l: "map (\<lambda>i. CHR ''-'' # fmt_d i) [0..<3] = [''-0'', ''-1'', ''-2'']"
    by code_simp
  have d: "fmt_d 0 = ''0''"
    by code_simp
  show ?thesis
    using getReplica_suffix [of "emptyPod\<lparr>Pod_Name := ''web-1''\<rparr>" examplePR "initState ()" 3]
      getReplica_suffix [of "emptyPod\<lparr>Pod_GenerateName := ''web-''\<rparr>" examplePR "initState ()" 3]
    by (simp add: l d emptyPod_def initState_def counterOf_def)
qed

text \<open>
  C6 as stated fails: it gives distinct suffixes for every number of resolutions.
  The counter is a \<open>uint\<close>; after \<open>2 ^ 64\<close> resolutions for a fresh key it is 0 again,
  and the next resolution returns \<open>-0\<close> a second time.
\<close>

theorem getReplica_wraps_counterexample:
  "map_of (replicas (initState ()))
      (replicaKey (PR_Name examplePR) (Pod_GenerateName (emptyPod\<lparr>Pod_GenerateName := ''web-''\<rparr>))) = None \<and>
   fst (successiveReplicas (2 ^ 64 + 1) (emptyPod\<lparr>Pod_GenerateName := ''web-''\<rparr>) examplePR
      (initState ())) ! 0 = ''-0'' \<and>
   fst (successiveReplicas (2 ^ 64 + 1) (emptyPod\<lparr>Pod_GenerateName := ''web-''\<rparr>) examplePR
      (initState ())) ! (2 ^ 64) = ''-0'' \<and>
   \<not> distinct (fst (successiveReplicas (2 ^ 64 + 1) (emptyPod\<lparr>Pod_GenerateName := ''web-''\<rparr>)
      examplePR (initState ())))"
proof -
  define N :: nat where "N = 2 ^ 64"
  define M :: nat where "M = 2 ^ 64 + 1"
  have MN: "N < M" "0 < M" "0 < N"
    by (simp_all add: N_def M_def)
  let ?pod = "emptyPod\<lparr>Pod_GenerateName := ''web-''\<rparr>"
  let ?g = "\<lambda>i. ''-'' @ fmt_d (unat (of_nat i :: 64 word))"
  let ?xs = "fst (successiveReplicas M ?pod examplePR (initState ()))"
  have fresh: "map_of (replicas (initState ()))
      (replicaKey (PR_Name examplePR) (Pod_GenerateName ?pod)) = None"
    by (simp add: initState_def)
  have z: "(of_nat N :: 64 word) = 0"
    by (simp add: N_def)
  have d: "fmt_d 0 = ''0''"
    by code_simp
  have xs: "?xs = map ?g [0..<M]"
    using successiveReplicas_fst [of ?pod M examplePR "initState ()"]
    by (simp add: emptyPod_def initState_def counterOf_def)
  have len: "length ?xs = M"
    by (simp add: xs)
  have first: "?xs ! 0 = ''-0''"
    unfolding xs using MN by (simp add: d)
  have "?xs ! N = ?g N"
    unfolding xs using MN by simp
  with z have last: "?xs ! N = ''-0''"
    by (simp add: d)
  have "\<not> distinct ?xs"
  proof
    assume "distinct ?xs"
    with len MN have "?xs ! 0 \<noteq> ?xs ! N"
      by (simp add: nth_eq_iff_index_eq)
    with first last show False
      by simp
  qed
  with fresh first last show ?thesis
    unfolding N_def M_def by (intro conjI)
qed

subsection \<open>Cleanup of the replica counters\<close>

lemma rangeDelete_other:
  "\<not> prefix k rKey \<Longrightarrow> map_of (rangeDelete rKey m) k = map_of m k"
  by (induction rKey m rule: rangeDelete.induct) auto

lemma rangeDelete_none:
  "list_all (\<lambda>(k, v). \<not> prefix k rKey) m \<Longrightarrow> rangeDelete rKey m = m"
  by (induction rKey m rule: rangeDelete.induct) auto

lemma rangeDelete_one:
  "\<not> list_all (\<lambda>(k, v). \<not> prefix k rKey) m \<Longrightarrow>
   \<exists>xs k v ys. m = xs @ (k, v) # ys \<and> prefix k rKey \<and>
     list_all (\<lambda>(k, v). \<not> prefix k rKey) xs \<and> rangeDelete rKey m = xs @ ys"
proof (induction rKey m rule: rangeDelete.induct)
  case (1 rKey)
  then show ?case by simp
next
  case (2 rKey k v kvs)
  show ?case
  proof (cases "prefix k rKey")
    case True
    then have "(k, v) # kvs = [] @ (k, v) # kvs \<and> prefix k rKey \<and>
        list_all (\<lambda>(k, v). \<not> prefix k rKey) [] \<and> rangeDelete rKey ((k, v) # kvs) = [] @ kvs"
      by simp
    then show ?thesis by blast
  next
    case False
    with "2.prems" have "\<not> list_all (\<lambda>(k, v). \<not> prefix k rKey) kvs"
      by simp
    from "2.IH" [OF False this] obtain xs k' v' ys where
      "kvs = xs @ (k', v') # ys" "prefix k' rKey"
      "list_all (\<lambda>(k, v). \<not> prefix k rKey) xs" "rangeDelete rKey kvs = xs @ ys"
      by blast
    with False have "(k, v) # kvs = ((k, v) # xs) @ (k', v') # ys \<and> prefix k' rKey \<and>
        list_all (\<lambda>(k, v). \<not> prefix k rKey) ((k, v) # xs) \<and>
        rangeDelete rKey ((k, v) # kvs) = ((k, v) # xs) @ ys"
      by simp
    then show ?thesis by blast
  qed
qed

lemma setFinalizers_removing:
  assumes "\<not> anyPodMatch op selector podLabels podName recordedPods"
    and "ContainsFinalizer pr finalizer"
  shows "setFinalizers impl op pr selector podName podLabels recordedPods st =
    (fst (UpdateResource impl (RemoveFinalizer pr finalizer) (world st)),
     RemoveFinalizer pr finalizer,
     st\<lparr>replicas := rangeDelete (replicaKey (PR_Name pr) podName) (replicas st),
        world := snd (UpdateResource impl (RemoveFinalizer pr finalizer) (world st))\<rparr>)"
  using assms
  by (simp add: setFinalizers_def cleanupReplicas_def Let_def split: prod.splits)

text \<open>
  C5, as the code has it. When \<open>setFinalizers\<close> removes the finalizer (no pod matches
  and the recording carries the finalizer), \<open>cleanupReplicas\<close> visits the counters and
  deletes the first entry whose key is a prefix of
  \<open>replicaKey recordingName podName\<close>, then stops: either no key is such a prefix and
  the map is unchanged, or exactly that one entry is taken out. An entry whose key is
  not a prefix of \<open>replicaKey recordingName podName\<close> is never removed, whether or not
  its key begins with the recording's name.
\<close>

theorem setFinalizers_cleanup:
  assumes "\<not> anyPodMatch op selector podLabels podName recordedPods"
    and "ContainsFinalizer pr finalizer"
    and "setFinalizers impl op pr selector podName podLabels recordedPods st = (err, pr', st')"
  shows "finalizer \<notin> set (PR_Finalizers pr') \<and>
    replicas st' = rangeDelete (replicaKey (PR_Name pr) podName) (replicas st) \<and>
    (\<forall>k. \<not> prefix k (replicaKey (PR_Name pr) podName) \<longrightarrow>
       map_of (replicas st') k = map_of (replicas st) k) \<and>
    (replicas st' = replicas st \<and>
       list_all (\<lambda>(k, v). \<not> prefix k (replicaKey (PR_Name pr) podName)) (replicas st) \<or>
     (\<exists>xs k v ys. replicas st = xs @ (k, v) # ys \<and> replicas st' = xs @ ys \<and>
        prefix k (replicaKey (PR_Name pr) podName) \<and>
        list_all (\<lambda>(k, v). \<not> prefix k (replicaKey (PR_Name pr) podName)) xs))"
proof -
  let ?rKey = "replicaKey (PR_Name pr) podName"
  from assms have pr': "pr' = RemoveFinalizer pr finalizer"
    and r: "replicas st' = rangeDelete ?rKey (replicas st)"
    by (auto simp: setFinalizers_removing)
  have "finalizer \<notin> set (PR_Finalizers pr')"
    by (simp add: pr' RemoveFinalizer_def)
  moreover have "\<forall>k. \<not> prefix k ?rKey \<longrightarrow> map_of (replicas st') k = map_of (replicas st) k"
    by (simp add: r rangeDelete_other)
  moreover have "replicas st' = replicas st \<and> list_all (\<lambda>(k, v). \<not> prefix k ?rKey) (replicas st) \<or>
     (\<exists>xs k v ys. replicas st = xs @ (k, v) # ys \<and> replicas st' = xs @ ys \<and>
        prefix k ?rKey \<and> list_all (\<lambda>(k, v). \<not> prefix k ?rKey) xs)"
  proof (cases "list_all (\<lambda>(k, v). \<not> prefix k ?rKey) (replicas st)")
    case True
    then show ?thesis by (simp add: r rangeDelete_none)
  next
    case False
    from rangeDelete_one [OF False] show ?thesis
      unfolding r by blast
  qed
  ultimately show ?thesis
    using r by blast
qed

theorem setFinalizers_cleanup_witness:
  "\<not> anyPodMatch Delete (\<lambda>ls. True) Map.empty ''web-abc12'' [emptyPod\<lparr>Pod_Name := ''web-abc12''\<rparr>] \<and>
   ContainsFinalizer (examplePR\<lparr>PR_Finalizers := [finalizer]\<rparr>) finalizer \<and>
   PR_Finalizers (fst (snd (setFinalizers (exampleImpl emptyPod) Delete
      (examplePR\<lparr>PR_Finalizers := [finalizer]\<rparr>) (\<lambda>ls. True) ''web-abc12'' Map.empty
      [emptyPod\<lparr>Pod_Name := ''web-abc12''\<rparr>]
      ((initState emptyStore)\<lparr>replicas := [(''rec1/web-'', 2), (''rec1/db-'', 1)]\<rparr>)))) = [] \<and>
   replicas (snd (snd (setFinalizers (exampleImpl emptyPod) Delete
      (examplePR\<lparr>PR_Finalizers := [finalizer]\<rparr>) (\<lambda>ls. True) ''web-abc12'' Map.empty
      [emptyPod\<lparr>Pod_Name := ''web-abc12''\<rparr>]
      ((initState emptyStore)\<lparr>replicas := [(''rec1/web-'', 2), (''rec1/db-'', 1)]\<rparr>)))) =
     [(''rec1/db-'', 1)]"
proof -
  let ?pr = "examplePR\<lparr>PR_Finalizers := [finalizer]\<rparr>"
  let ?pods = "[emptyPod\<lparr>Pod_Name := ''web-abc12''\<rparr>]"
  let ?st = "(initState emptyStore)\<lparr>replicas := [(''rec1/web-'', 2), (''rec1/db-'', 1)]\<rparr>"
  let ?r = "setFinalizers (exampleImpl emptyPod) Delete ?pr (\<lambda>ls. True) ''web-abc12'' Map.empty
      ?pods ?st"
  have a: "\<not> anyPodMatch Delete (\<lambda>ls. True) Map.empty ''web-abc12'' ?pods"
    by (simp add: anyPodMatch_def)
  have b: "ContainsFinalizer ?pr finalizer"
    by (simp add: ContainsFinalizer_def)
  have c: "?r = (fst ?r, fst (snd ?r), snd (snd ?r))"
    by simp
  from setFinalizers_cleanup [OF a b c]
  have "finalizer \<notin> set (PR_Finalizers (fst (snd ?r)))"
    and "replicas (snd (snd ?r)) = rangeDelete (replicaKey (PR_Name ?pr) ''web-abc12'') (replicas ?st)"
    by blast+
  moreover have "PR_Finalizers (fst (snd ?r)) = [] \<or> PR_Finalizers (fst (snd ?r)) = [finalizer]"
    by (simp add: setFinalizers_def Let_def RemoveFinalizer_def AddFinalizer_def split: prod.splits)
  ultimately show ?thesis
    using a b by (auto simp: examplePR_def initState_def replicaKey_def)
qed

text \<open>
  C5 as stated fails. A recording \<open>rec1\<close> holds the counters \<open>rec1/web-\<close> and \<open>rec1/db-\<close>;
  its last pod \<open>web-abc12\<close> is deleted and the finalizer is removed. The counter
  \<open>rec1/db-\<close>, whose key is prefixed by the recording's name, is still in the map.
\<close>

theorem cleanupReplicas_counterexample:
  "ContainsFinalizer (examplePR\<lparr>PR_Finalizers := [finalizer]\<rparr>) finalizer \<and>
   \<not> ContainsFinalizer (fst (snd (setFinalizers (exampleImpl emptyPod) Delete
      (examplePR\<lparr>PR_Finalizers := [finalizer]\<rparr>) (\<lambda>ls. True) ''web-abc12'' Map.empty
      [emptyPod\<lparr>Pod_Name := ''web-abc12''\<rparr>]
      ((initState emptyStore)\<lparr>replicas := [(''rec1/web-'', 2), (''rec1/db-'', 1)]\<rparr>)))) finalizer \<and>
   \<not> countersOfRecordingRemoved (PR_Name examplePR)
      (replicas (snd (snd (setFinalizers (exampleImpl emptyPod) Delete
      (examplePR\<lparr>PR_Finalizers := [finalizer]\<rparr>) (\<lambda>ls. True) ''web-abc12'' Map.empty
      [emptyPod\<lparr>Pod_Name := ''web-abc12''\<rparr>]
      ((initState emptyStore)\<lparr>replicas := [(''rec1/web-'', 2), (''rec1/db-'', 1)]\<rparr>)))))"
  by (simp add: setFinalizers_def anyPodMatch_def ContainsFinalizer_def RemoveFinalizer_def
      cleanupReplicas_def replicaKey_def countersOfRecordingRemoved_def examplePR_def
      initState_def exampleImpl_def Let_def)

subsection \<open>The finalizer\<close>

lemma otherPodFound_iff: "otherPodFound podName ps = list_ex (\<lambda>p. Pod_Name p \<noteq> podName) ps"
  by (induction ps) auto

lemma anyPodMatch_iff:
  "anyPodMatch op selector podLabels podName foundPods =
     (specFinalizerNeeded op podName foundPods \<or> op \<noteq> Delete \<and> selector podLabels)"
  by (auto simp: anyPodMatch_def specFinalizerNeeded_def otherPodFound_iff list_ex_iff list_all_iff)

lemma setFinalizers_result:
  "setFinalizers impl op pr selector podName podLabels recordedPods st = (err, pr', st') \<Longrightarrow>
   UpdateResource impl pr' (world st) = (err, world st') \<and>
   ContainsFinalizer pr' finalizer = anyPodMatch op selector podLabels podName recordedPods"
  by (auto simp: setFinalizers_def cleanupReplicas_def Let_def ContainsFinalizer_def
      AddFinalizer_def RemoveFinalizer_def split: prod.splits if_splits)

text \<open>
  C1, as the code has it. After a successful \<open>setFinalizers\<close> the recording that was
  written carries the finalizer if and only if the spec's rule holds (the snapshot is
  non-empty and the operation is not a Delete of the last remaining pod, or some pod
  of the snapshot is not the one being deleted) or the operation is not Delete and
  the selector matches the labels of the current pod. With an empty snapshot the
  finalizer is present exactly in that last case.
\<close>

theorem setFinalizers_finalizer:
  assumes "setFinalizers impl op pr selector podName podLabels recordedPods st = (None, pr', st')"
  shows "UpdateResource impl pr' (world st) = (None, world st') \<and>
    (ContainsFinalizer pr' finalizer \<longleftrightarrow>
       specFinalizerNeeded op podName recordedPods \<or> op \<noteq> Delete \<and> selector podLabels) \<and>
    (recordedPods = [] \<longrightarrow>
       (ContainsFinalizer pr' finalizer \<longleftrightarrow> op \<noteq> Delete \<and> selector podLabels))"
proof -
  from setFinalizers_result [OF assms]
  have w: "UpdateResource impl pr' (world st) = (None, world st')"
    and f: "ContainsFinalizer pr' finalizer =
      (specFinalizerNeeded op podName recordedPods \<or> op \<noteq> Delete \<and> selector podLabels)"
    by (simp_all add: anyPodMatch_iff)
  have "recordedPods = [] \<Longrightarrow> \<not> specFinalizerNeeded op podName recordedPods"
    by (simp add: specFinalizerNeeded_def)
  with w f show ?thesis by auto
qed

theorem setFinalizers_finalizer_witness:
  "fst (setFinalizers (exampleImpl emptyPod) Delete (examplePR\<lparr>PR_Finalizers := [finalizer]\<rparr>)
      (selectorOf (PR_PodSelector examplePR)) ''web-abc12'' Map.empty
      [emptyPod\<lparr>Pod_Name := ''web-abc12''\<rparr>] (initState emptyStore)) = None \<and>
   \<not> ContainsFinalizer (fst (snd (setFinalizers (exampleImpl emptyPod) Delete
      (examplePR\<lparr>PR_Finalizers := [finalizer]\<rparr>)
      (selectorOf (PR_PodSelector examplePR)) ''web-abc12'' Map.empty
      [emptyPod\<lparr>Pod_Name := ''web-abc12''\<rparr>] (initState emptyStore)))) finalizer \<and>
   fst (setFinalizers (exampleImpl emptyPod) Create examplePR
      (selectorOf (PR_PodSelector examplePR)) ''web-abc13'' Map.empty
      [emptyPod\<lparr>Pod_Name := ''web-abc12''\<rparr>] (initState emptyStore)) = None \<and>
   ContainsFinalizer (fst (snd (setFinalizers (exampleImpl emptyPod) Create examplePR
      (selectorOf (PR_PodSelector examplePR)) ''web-abc13'' Map.empty
      [emptyPod\<lparr>Pod_Name := ''web-abc12''\<rparr>] (initState emptyStore)))) finalizer"
proof -
  let ?sel = "selectorOf (PR_PodSelector examplePR)"
  let ?pods = "[emptyPod\<lparr>Pod_Name := ''web-abc12''\<rparr>]"
  let ?d = "setFinalizers (exampleImpl emptyPod) Delete (examplePR\<lparr>PR_Finalizers := [finalizer]\<rparr>)
      ?sel ''web-abc12'' Map.empty ?pods (initState emptyStore)"
  let ?c = "setFinalizers (exampleImpl emptyPod) Create examplePR
      ?sel ''web-abc13'' Map.empty ?pods (initState emptyStore)"
  have d1: "fst ?d = None" and c1: "fst ?c = None"
    by (simp_all add: setFinalizers_def exampleImpl_def Let_def split: prod.splits)
  have d: "?d = (None, fst (snd ?d), snd (snd ?d))"
    using d1 by (metis prod.collapse)
  have c: "?c = (None, fst (snd ?c), snd (snd ?c))"
    using c1 by (metis prod.collapse)
  have "\<not> specFinalizerNeeded Delete ''web-abc12'' ?pods"
    by (simp add: specFinalizerNeeded_def)
  with setFinalizers_finalizer [OF d]
  have d2: "\<not> ContainsFinalizer (fst (snd ?d)) finalizer"
    by simp
  have "specFinalizerNeeded Create ''web-abc13'' ?pods"
    by (simp add: specFinalizerNeeded_def)
  with setFinalizers_finalizer [OF c]
  have c2: "ContainsFinalizer (fst (snd ?c)) finalizer"
    by simp
  from d1 d2 c1 c2 show ?thesis
    by (intro conjI)
qed

text \<open>
  C1 as stated fails: it has the finalizer absent whenever the snapshot is empty. A
  Create of a pod that the selector matches, with no pod recorded yet, puts the
  finalizer on the recording.
\<close>

theorem setFinalizers_empty_snapshot_counterexample:
  "fst (setFinalizers (exampleImpl emptyPod) Create examplePR
      (selectorOf (PR_PodSelector examplePR)) ''web-abc12'' Map.empty [] (initState emptyStore)) = None \<and>
   ContainsFinalizer (fst (snd (setFinalizers (exampleImpl emptyPod) Create examplePR
      (selectorOf (PR_PodSelector examplePR)) ''web-abc12'' Map.empty [] (initState emptyStore))))
      finalizer \<and>
   \<not> specFinalizerNeeded Create ''web-abc12'' []"
  by (simp add: setFinalizers_def anyPodMatch_def ContainsFinalizer_def AddFinalizer_def
      specFinalizerNeeded_def examplePR_def selectorOf_def exampleImpl_def Let_def)

subsection \<open>The active workloads\<close>

lemma setActiveWorkloads_result:
  "setActiveWorkloads impl op pr selector podName podLabels recordedPods st =
     (fst (UpdateResourceStatus impl
        (pr\<lparr>PR_ActiveWorkloads := newActiveWorkloads op selector podName podLabels recordedPods\<rparr>)
        (world st)),
      pr\<lparr>PR_ActiveWorkloads := newActiveWorkloads op selector podName podLabels recordedPods\<rparr>,
      st\<lparr>world := snd (UpdateResourceStatus impl
        (pr\<lparr>PR_ActiveWorkloads := newActiveWorkloads op selector podName podLabels recordedPods\<rparr>)
        (world st))\<rparr>)"
  by (simp add: setActiveWorkloads_def Let_def split: prod.splits)

lemma newActiveWorkloads_distinct:
  "distinct (map Pod_Name recordedPods) \<Longrightarrow>
   distinct (newActiveWorkloads op selector podName podLabels recordedPods)"
  by (simp add: newActiveWorkloads_def RemoveIfExists_def AppendIfNotExists_def Let_def)

text \<open>
  C4. \<open>setActiveWorkloads\<close> writes (through \<open>UpdateResourceStatus\<close>) the recording with
  a new list of active workloads that is: on Delete, the names of the snapshot without
  the current pod name; otherwise the names of the snapshot, with the current pod
  name appended when the selector matches the pod's labels and the name is not among
  them. Nothing else of the recording changes. With a duplicate-free snapshot the list
  has no duplicate, and on Delete it no longer holds the pod name. The list does not
  depend on the recording or the state the call starts from, so computing it again
  from the same inputs, also on the recording just written, gives the same list.
\<close>

theorem setActiveWorkloads_list:
  assumes "setActiveWorkloads impl op pr selector podName podLabels recordedPods st = (err, pr', st')"
  shows "UpdateResourceStatus impl pr' (world st) = (err, world st') \<and>
    pr' = pr\<lparr>PR_ActiveWorkloads := PR_ActiveWorkloads pr'\<rparr> \<and>
    (op = Delete \<longrightarrow>
       PR_ActiveWorkloads pr' = remove1 podName (map Pod_Name recordedPods)) \<and>
    (op \<noteq> Delete \<and> selector podLabels \<and> podName \<notin> set (map Pod_Name recordedPods) \<longrightarrow>
       PR_ActiveWorkloads pr' = map Pod_Name recordedPods @ [podName]) \<and>
    (op \<noteq> Delete \<and> (\<not> selector podLabels \<or> podName \<in> set (map Pod_Name recordedPods)) \<longrightarrow>
       PR_ActiveWorkloads pr' = map Pod_Name recordedPods) \<and>
    (distinct (map Pod_Name recordedPods) \<longrightarrow>
       distinct (PR_ActiveWorkloads pr') \<and>
       (op = Delete \<longrightarrow>
          set (PR_ActiveWorkloads pr') = set (map Pod_Name recordedPods) - {podName})) \<and>
    (\<forall>pr2 st2. PR_ActiveWorkloads (fst (snd (setActiveWorkloads impl op pr2 selector podName
       podLabels recordedPods st2))) = PR_ActiveWorkloads pr')"
proof -
  let ?new = "newActiveWorkloads op selector podName podLabels recordedPods"
  from assms have pr': "pr' = pr\<lparr>PR_ActiveWorkloads := ?new\<rparr>"
    and w: "UpdateResourceStatus impl pr' (world st) = (err, world st')"
    by (auto simp: setActiveWorkloads_result)
  have l: "PR_ActiveWorkloads pr' = ?new"
    by (simp add: pr')
  have "pr' = pr\<lparr>PR_ActiveWorkloads := PR_ActiveWorkloads pr'\<rparr>"
    by (simp add: pr')
  moreover have "op = Delete \<longrightarrow> PR_ActiveWorkloads pr' = remove1 podName (map Pod_Name recordedPods)"
    by (simp add: l newActiveWorkloads_def RemoveIfExists_def Let_def)
  moreover have "op \<noteq> Delete \<and> selector podLabels \<and> podName \<notin> set (map Pod_Name recordedPods) \<longrightarrow>
       PR_ActiveWorkloads pr' = map Pod_Name recordedPods @ [podName]"
    by (simp add: l newActiveWorkloads_def AppendIfNotExists_def Let_def)
  moreover have "op \<noteq> Delete \<and> (\<not> selector podLabels \<or> podName \<in> set (map Pod_Name recordedPods)) \<longrightarrow>
       PR_ActiveWorkloads pr' = map Pod_Name recordedPods"
    by (auto simp: l newActiveWorkloads_def AppendIfNotExists_def Let_def)
  moreover have "distinct (map Pod_Name recordedPods) \<longrightarrow>
       distinct (PR_ActiveWorkloads pr') \<and>
       (op = Delete \<longrightarrow>
          set (PR_ActiveWorkloads pr') = set (map Pod_Name recordedPods) - {podName})"
  proof (intro impI conjI)
    assume dist: "distinct (map Pod_Name recordedPods)"
    then show "distinct (PR_ActiveWorkloads pr')"
      unfolding l by (rule newActiveWorkloads_distinct)
    assume "op = Delete"
    with dist show "set (PR_ActiveWorkloads pr') = set (map Pod_Name recordedPods) - {podName}"
      by (simp add: l newActiveWorkloads_def RemoveIfExists_def Let_def del: set_map)
  qed
  moreover have "\<forall>pr2 st2. PR_ActiveWorkloads (fst (snd (setActiveWorkloads impl op pr2 selector
       podName podLabels recordedPods st2))) = PR_ActiveWorkloads pr'"
    by (simp add: l setActiveWorkloads_result)
  ultimately show ?thesis
    using w by blast
qed

theorem setActiveWorkloads_list_witness:
  "PR_ActiveWorkloads (fst (snd (setActiveWorkloads (exampleImpl emptyPod) Create examplePR
      (selectorOf (PR_PodSelector examplePR)) ''web-abc13'' Map.empty
      [emptyPod\<lparr>Pod_Name := ''web-abc12''\<rparr>] (initState emptyStore)))) =
     [''web-abc12'', ''web-abc13''] \<and>
   PR_ActiveWorkloads (fst (snd (setActiveWorkloads (exampleImpl emptyPod) Delete examplePR
      (selectorOf (PR_PodSelector examplePR)) ''web-abc12'' Map.empty
      [emptyPod\<lparr>Pod_Name := ''web-abc12''\<rparr>] (initState emptyStore)))) = [] \<and>
   distinct (PR_ActiveWorkloads (fst (snd (setActiveWorkloads (exampleImpl emptyPod) Create examplePR
      (selectorOf (PR_PodSelector examplePR)) ''web-abc13'' Map.empty
      [emptyPod\<lparr>Pod_Name := ''web-abc12''\<rparr>] (initState emptyStore)))))"
proof -
  let ?sel = "selectorOf (PR_PodSelector examplePR)"
  let ?pods = "[emptyPod\<lparr>Pod_Name := ''web-abc12''\<rparr>]"
  let ?c = "setActiveWorkloads (exampleImpl emptyPod) Create examplePR ?sel ''web-abc13'' Map.empty
      ?pods (initState emptyStore)"
  let ?d = "setActiveWorkloads (exampleImpl emptyPod) Delete examplePR ?sel ''web-abc12'' Map.empty
      ?pods (initState emptyStore)"
  have c: "?c = (fst ?c, fst (snd ?c), snd (snd ?c))" and d: "?d = (fst ?d, fst (snd ?d), snd (snd ?d))"
    by simp_all
  have m: "?sel Map.empty"
    by (simp add: selectorOf_def examplePR_def)
  from setActiveWorkloads_list [OF c] m
  have c1: "PR_ActiveWorkloads (fst (snd ?c)) = [''web-abc12'', ''web-abc13'']"
    and c2: "distinct (PR_ActiveWorkloads (fst (snd ?c)))"
    by simp_all
  from setActiveWorkloads_list [OF d]
  have d1: "PR_ActiveWorkloads (fst (snd ?d)) = []"
    by simp
  from c1 d1 c2 show ?thesis
    by (intro conjI)
qed

subsection \<open>A recording deleted while the request is handled\<close>

lemma Retry_success: "fn s = (None, s') \<Longrightarrow> Retry n fn retryCondition s = (None, s')"
  by (cases n) simp_all

lemma setRecordingReferences_get_failed:
  "GetProfileRecording impl (PR_Name pr) (PR_Namespace pr) (world st) = (Inl e, w) \<Longrightarrow>
   setRecordingReferences impl op pr selector podName podLabels recordedPods st =
     (if IsNotFound e then None else Some (Wrapped ''cannot retrieve profilerecording'' e),
      st\<lparr>world := w\<rparr>)"
  by (simp add: setRecordingReferences_def)

text \<open>
  C9. When the re-fetch in \<open>setRecordingReferences\<close> fails with not-found, the call
  returns no error and the state that the fetch left: neither \<open>UpdateResourceStatus\<close>
  nor \<open>UpdateResource\<close> is consulted (the result is the same whatever they are), and
  the counters and the log are untouched. The retried unit in \<open>Handle\<close> then succeeds
  at once, so the loop goes on to the mutator for that recording instead of returning
  an error response. Any other error of the re-fetch is returned, wrapped.
\<close>

theorem setRecordingReferences_refetch_failed:
  assumes "GetProfileRecording impl (PR_Name pr) (PR_Namespace pr) (world st) = (Inl e, w)"
  shows "(IsNotFound e \<longrightarrow>
      setRecordingReferences impl op pr selector podName podLabels recordedPods st =
        (None, st\<lparr>world := w\<rparr>) \<and>
      (\<forall>u1 u2. setRecordingReferences (impl\<lparr>UpdateResourceStatus := u1, UpdateResource := u2\<rparr>)
         op pr selector podName podLabels recordedPods st = (None, st\<lparr>world := w\<rparr>)) \<and>
      Retry n (addPodTracking impl op pr selector podName podLabels recordedPods) IsConflict st =
        (None, st\<lparr>world := w\<rparr>)) \<and>
    (\<not> IsNotFound e \<longrightarrow>
      setRecordingReferences impl op pr selector podName podLabels recordedPods st =
        (Some (Wrapped ''cannot retrieve profilerecording'' e), st\<lparr>world := w\<rparr>))"
proof (intro conjI impI allI)
  assume nf: "IsNotFound e"
  with assms show r: "setRecordingReferences impl op pr selector podName podLabels recordedPods st =
      (None, st\<lparr>world := w\<rparr>)"
    by (simp add: setRecordingReferences_get_failed)
  then have "addPodTracking impl op pr selector podName podLabels recordedPods st =
      (None, st\<lparr>world := w\<rparr>)"
    by (simp add: addPodTracking_def)
  then show "Retry n (addPodTracking impl op pr selector podName podLabels recordedPods) IsConflict st =
      (None, st\<lparr>world := w\<rparr>)"
    by (rule Retry_success)
  fix u1 u2
  from assms nf
  show "setRecordingReferences (impl\<lparr>UpdateResourceStatus := u1, UpdateResource := u2\<rparr>)
      op pr selector podName podLabels recordedPods st = (None, st\<lparr>world := w\<rparr>)"
    by (simp add: setRecordingReferences_def)
next
  assume "\<not> IsNotFound e"
  with assms show "setRecordingReferences impl op pr selector podName podLabels recordedPods st =
      (Some (Wrapped ''cannot retrieve profilerecording'' e), st\<lparr>world := w\<rparr>)"
    by (simp add: setRecordingReferences_get_failed)
qed

theorem setRecordingReferences_refetch_failed_witness:
  "GetProfileRecording (exampleImpl emptyPod) (PR_Name examplePR) (PR_Namespace examplePR)
      (world (initState emptyStore)) = (Inl (StatusError StatusReasonNotFound), emptyStore) \<and>
   IsNotFound (StatusError StatusReasonNotFound) \<and>
   setRecordingReferences (exampleImpl emptyPod) Create examplePR (\<lambda>ls. True) ''web-abc12''
      Map.empty [] (initState emptyStore) = (None, initState emptyStore) \<and>
   \<not> IsNotFound (Err ''timeout'') \<and>
   setRecordingReferences
      ((exampleImpl emptyPod)\<lparr>GetProfileRecording := \<lambda>name ns w. (Inl (Err ''timeout''), w)\<rparr>)
      Create examplePR (\<lambda>ls. True) ''web-abc12'' Map.empty [] (initState emptyStore) =
     (Some (Wrapped ''cannot retrieve profilerecording'' (Err ''timeout'')), initState emptyStore)"
proof -
  let ?impl2 = "(exampleImpl emptyPod)\<lparr>GetProfileRecording := \<lambda>name ns w. (Inl (Err ''timeout''), w)\<rparr>"
  have g1: "GetProfileRecording (exampleImpl emptyPod) (PR_Name examplePR) (PR_Namespace examplePR)
      (world (initState emptyStore)) = (Inl (StatusError StatusReasonNotFound), emptyStore)"
    by (simp add: exampleImpl_def emptyStore_def initState_def)
  have g2: "GetProfileRecording ?impl2 (PR_Name examplePR) (PR_Namespace examplePR)
      (world (initState emptyStore)) = (Inl (Err ''timeout''), emptyStore)"
    by (simp add: initState_def)
  have s: "(initState emptyStore)\<lparr>world := emptyStore\<rparr> = initState emptyStore"
    by (simp add: initState_def)
  from setRecordingReferences_refetch_failed [OF g1, of Create "\<lambda>ls. True" "''web-abc12''" Map.empty "[]" 3]
    setRecordingReferences_refetch_failed [OF g2, of Create "\<lambda>ls. True" "''web-abc12''" Map.empty "[]" 3]
    g1
  show ?thesis
    by (simp add: s)
qed

subsection \<open>The loop of the pod mutator\<close>

lemma updateSecurityContext_fst:
  "fst (updateSecurityContext impl env ctr pr st) = securedContainer impl env pr ctr"
  by (simp add: updateSecurityContext_def securedContainer_def Let_def)

lemma updateSecurityContext_state:
  "world (snd (updateSecurityContext impl env ctr pr st)) = world st \<and>
   replicas (snd (updateSecurityContext impl env ctr pr st)) = replicas st \<and>
   mutatorCalls (snd (updateSecurityContext impl env ctr pr st)) = mutatorCalls st"
  by (simp add: updateSecurityContext_def Let_def logWrite_def)

lemma securedContainer_name [simp]: "Ctr_Name (securedContainer impl env pr ctr) = Ctr_Name ctr"
  by (simp add: securedContainer_def updateSeccompSecurityContext_def
      updateSelinuxSecurityContext_def Let_def split: profileRecordingKind.splits)

lemma assignCtr_fields [simp]:
  "Pod_Annotations (assignCtr pod r c) = Pod_Annotations pod"
  "Pod_Name (assignCtr pod r c) = Pod_Name pod"
  "Pod_GenerateName (assignCtr pod r c) = Pod_GenerateName pod"
  "Pod_Labels (assignCtr pod r c) = Pod_Labels pod"
  "length (Pod_InitContainers (assignCtr pod r c)) = length (Pod_InitContainers pod)"
  "length (Pod_Containers (assignCtr pod r c)) = length (Pod_Containers pod)"
  by (simp_all add: assignCtr_def split: ctrRef.splits)

lemma validRef_assignCtr [simp]: "validRef (assignCtr pod r c) r' = validRef pod r'"
  by (simp add: validRef_def split: ctrRef.splits)

lemma derefCtr_assignCtr:
  "validRef pod r \<Longrightarrow> derefCtr (assignCtr pod r c) r' = (if r' = r then c else derefCtr pod r')"
  by (auto simp: derefCtr_def assignCtr_def validRef_def split: ctrRef.splits)

lemma derefCtr_annotations [simp]:
  "derefCtr (pod\<lparr>Pod_Annotations := a\<rparr>) r = derefCtr pod r"
  by (simp add: derefCtr_def split: ctrRef.splits)

lemma validRef_annotations [simp]:
  "validRef (pod\<lparr>Pod_Annotations := a\<rparr>) r = validRef pod r"
  by (simp add: validRef_def split: ctrRef.splits)

text \<open>One round of the loop, when it does not fail.\<close>

lemma updateSecurityContext_eqD:
  "updateSecurityContext impl env ctr pr st = (x, y) \<Longrightarrow> x = securedContainer impl env pr ctr"
  using updateSecurityContext_fst [of impl env ctr pr st] by simp

lemma updateCtr_Inr:
  assumes "updateCtr impl env podName pr replica r pod c st = Inr (pod', c', st')"
  shows "\<exists>key value. CtrAnnotation env pr replica (Ctr_Name (derefCtr pod r)) = Inr (key, value) \<and>
    pod' = (case Pod_Annotations pod key of
        None \<Rightarrow> (assignCtr pod r (securedContainer impl env pr (derefCtr pod r)))
          \<lparr>Pod_Annotations := (Pod_Annotations pod)(key \<mapsto> value)\<rparr>
      | Some v \<Rightarrow> assignCtr pod r (securedContainer impl env pr (derefCtr pod r))) \<and>
    c' = (c \<or> Pod_Annotations pod key = None)"
  using assms
  by (auto simp: updateCtr_def Let_def split: sum.splits prod.splits option.splits
      dest!: updateSecurityContext_eqD)

lemma updateCtr_frame:
  assumes "updateCtr impl env podName pr replica r pod c st = Inr (pod', c', st')"
  shows "Pod_Annotations pod \<subseteq>\<^sub>m Pod_Annotations pod'"
    and "c' \<longleftrightarrow> c \<or> Pod_Annotations pod' \<noteq> Pod_Annotations pod"
    and "validRef pod' = validRef pod"
    and "validRef pod r \<Longrightarrow> derefCtr pod' r' =
      (if r' = r then securedContainer impl env pr (derefCtr pod r) else derefCtr pod r')"
    and "Pod_Name pod' = Pod_Name pod" and "Pod_GenerateName pod' = Pod_GenerateName pod"
    and "Pod_Labels pod' = Pod_Labels pod"
proof -
  from updateCtr_Inr [OF assms] obtain key "value" where
    pod': "pod' = (case Pod_Annotations pod key of
        None \<Rightarrow> (assignCtr pod r (securedContainer impl env pr (derefCtr pod r)))
          \<lparr>Pod_Annotations := (Pod_Annotations pod)(key \<mapsto> value)\<rparr>
      | Some v \<Rightarrow> assignCtr pod r (securedContainer impl env pr (derefCtr pod r)))"
    and c': "c' = (c \<or> Pod_Annotations pod key = None)"
    by blast
  show "Pod_Annotations pod \<subseteq>\<^sub>m Pod_Annotations pod'"
    by (auto simp: pod' map_le_def split: option.splits)
  show "c' \<longleftrightarrow> c \<or> Pod_Annotations pod' \<noteq> Pod_Annotations pod"
    by (cases "Pod_Annotations pod key") (auto simp: pod' c' dest: fun_cong [where x = key])
  show "validRef pod' = validRef pod"
    by (rule ext) (simp add: pod' split: option.splits)
  show "validRef pod r \<Longrightarrow> derefCtr pod' r' =
      (if r' = r then securedContainer impl env pr (derefCtr pod r) else derefCtr pod r')"
    by (simp add: pod' derefCtr_assignCtr split: option.splits)
  show "Pod_Name pod' = Pod_Name pod" "Pod_GenerateName pod' = Pod_GenerateName pod"
    "Pod_Labels pod' = Pod_Labels pod"
    by (simp_all add: pod' split: option.splits)
qed

text \<open>The whole loop: annotations only grow, and \<open>podChanged\<close> tells whether they grew.\<close>

lemma updateCtrs_annotations:
  "updateCtrs impl env podName pr replica rs pod c st = (res, pod', st') \<Longrightarrow>
   Pod_Annotations pod \<subseteq>\<^sub>m Pod_Annotations pod' \<and>
   (\<forall>c'. res = Inr c' \<longrightarrow> (c' \<longleftrightarrow> c \<or> Pod_Annotations pod' \<noteq> Pod_Annotations pod))"
proof (induction rs arbitrary: pod c st)
  case Nil
  then show ?case by auto
next
  case (Cons r rs)
  show ?case
  proof (cases "updateCtr impl env podName pr replica r pod c st")
    case (Inl err)
    with Cons.prems show ?thesis by auto
  next
    case (Inr t)
    then obtain pod1 c1 st1 where
      step: "updateCtr impl env podName pr replica r pod c st = Inr (pod1, c1, st1)"
      by (cases t) auto
    with Cons.prems have rest: "updateCtrs impl env podName pr replica rs pod1 c1 st1 = (res, pod', st')"
      by simp
    note f = updateCtr_frame(1,2) [OF step]
    note ih = Cons.IH [OF rest]
    from f(1) ih have le: "Pod_Annotations pod \<subseteq>\<^sub>m Pod_Annotations pod'"
      by (blast intro: map_le_trans)
    have "c' \<longleftrightarrow> c \<or> Pod_Annotations pod' \<noteq> Pod_Annotations pod" if "res = Inr c'" for c'
    proof -
      from ih that have "c' \<longleftrightarrow> c1 \<or> Pod_Annotations pod' \<noteq> Pod_Annotations pod1"
        by blast
      moreover have "Pod_Annotations pod1 \<noteq> Pod_Annotations pod \<Longrightarrow>
          Pod_Annotations pod' \<noteq> Pod_Annotations pod"
        using f(1) ih by (metis map_le_antisym)
      ultimately show ?thesis
        using f(2) by auto
    qed
    with le show ?thesis by blast
  qed
qed

text \<open>The whole loop, when it does not fail: each referenced container is secured once.\<close>

lemma updateCtrs_containers:
  "updateCtrs impl env podName pr replica rs pod c st = (Inr c', pod', st') \<Longrightarrow>
   distinct rs \<Longrightarrow> \<forall>r\<in>set rs. validRef pod r \<Longrightarrow>
   validRef pod' = validRef pod \<and>
   Pod_Name pod' = Pod_Name pod \<and> Pod_GenerateName pod' = Pod_GenerateName pod \<and>
   Pod_Labels pod' = Pod_Labels pod \<and>
   (\<forall>r'. derefCtr pod' r' =
      (if r' \<in> set rs then securedContainer impl env pr (derefCtr pod r') else derefCtr pod r'))"
proof (induction rs arbitrary: pod c st)
  case Nil
  then show ?case by auto
next
  case (Cons r rs)
  from Cons.prems(1) obtain pod1 c1 st1 where
    step: "updateCtr impl env podName pr replica r pod c st = Inr (pod1, c1, st1)"
    and rest: "updateCtrs impl env podName pr replica rs pod1 c1 st1 = (Inr c', pod', st')"
    by (auto split: sum.splits)
  from Cons.prems have r: "validRef pod r" and rs: "\<forall>x\<in>set rs. validRef pod x"
    and dist: "distinct rs" and notin: "r \<notin> set rs"
    by auto
  note f = updateCtr_frame [OF step]
  from rs f(3) have "\<forall>x\<in>set rs. validRef pod1 x"
    by simp
  from Cons.IH [OF rest dist this]
  have ih: "validRef pod' = validRef pod1" "Pod_Name pod' = Pod_Name pod1"
    "Pod_GenerateName pod' = Pod_GenerateName pod1" "Pod_Labels pod' = Pod_Labels pod1"
    "\<And>r'. derefCtr pod' r' =
      (if r' \<in> set rs then securedContainer impl env pr (derefCtr pod1 r') else derefCtr pod1 r')"
    by blast+
  have "derefCtr pod' r' =
      (if r' \<in> set (r # rs) then securedContainer impl env pr (derefCtr pod r') else derefCtr pod r')"
    for r'
    using notin by (auto simp: ih(5) f(4) [OF r])
  with ih(1-4) f(3,5,6,7) show ?case
    by simp
qed
subsection \<open>The pod mutator as a whole\<close>

lemma getReplica_Inr: "\<exists>replica. fst (getReplica pod pr st) = Inr replica"
  by (simp add: getReplica_def Let_def split: prod.splits)

lemma updatePod_unfold:
  assumes "updatePod impl env pod podName pr st = (res, pod', st')"
  shows "\<exists>replica st1 st2. getReplica pod pr st = (Inr replica, st1) \<and>
    updateCtrs impl env podName pr replica (collectCtrs pod pr) pod False st1 = (res, pod', st2) \<and>
    st' = st2\<lparr>mutatorCalls := mutatorCalls st2 @ [(PR_Name pr, returnedPodChanged res)]\<rparr>"
proof -
  obtain replica where "fst (getReplica pod pr st) = Inr replica"
    using getReplica_Inr by blast
  then have g: "getReplica pod pr st = (Inr replica, snd (getReplica pod pr st))"
    by (metis prod.collapse)
  with assms show ?thesis
    by (auto simp: updatePod_def updatePodBody_def split: prod.splits)
qed

lemma updatePod_annotations:
  assumes "updatePod impl env pod podName pr st = (res, pod', st')"
  shows "Pod_Annotations pod \<subseteq>\<^sub>m Pod_Annotations pod'"
    and "res = Inr c' \<Longrightarrow> c' \<longleftrightarrow> Pod_Annotations pod' \<noteq> Pod_Annotations pod"
proof -
  from updatePod_unfold [OF assms] obtain replica st1 st2 where
    "updateCtrs impl env podName pr replica (collectCtrs pod pr) pod False st1 = (res, pod', st2)"
    by blast
  from updateCtrs_annotations [OF this]
  show "Pod_Annotations pod \<subseteq>\<^sub>m Pod_Annotations pod'"
    and "res = Inr c' \<Longrightarrow> c' \<longleftrightarrow> Pod_Annotations pod' \<noteq> Pod_Annotations pod"
    by auto
qed

text \<open>
  C7. A round of the loop of \<open>updatePod\<close> that finds the computed key already on the
  pod with another value leaves the annotations as they are, keeps \<open>podChanged\<close> as
  it was, and logs the conflict (after the log line of the security context, if any).
  Over the whole of \<open>updatePod\<close>, whether it fails or not, every annotation the pod
  had keeps its value, a key whose value differs afterwards was missing before, and
  the returned \<open>podChanged\<close> is true exactly when the annotations have changed, that
  is when some missing key was set.
\<close>

theorem updatePod_first_writer_wins:
  "(CtrAnnotation env pr replica (Ctr_Name (derefCtr pod r)) = Inr (key, value) \<and>
    Pod_Annotations pod key = Some existingValue \<and> existingValue \<noteq> value \<longrightarrow>
      updateCtr impl env podName pr replica r pod podChanged st =
        Inr (assignCtr pod r (securedContainer impl env pr (derefCtr pod r)), podChanged,
             logWrite (LogExistingAnnotation podName existingValue value)
               (snd (updateSecurityContext impl env (derefCtr pod r) pr st))) \<and>
      Pod_Annotations (assignCtr pod r (securedContainer impl env pr (derefCtr pod r))) =
        Pod_Annotations pod) \<and>
   (updatePod impl env pod podName pr st = (res, pod', st') \<longrightarrow>
      (\<forall>k v. Pod_Annotations pod k = Some v \<longrightarrow> Pod_Annotations pod' k = Some v) \<and>
      (\<forall>k. Pod_Annotations pod' k \<noteq> Pod_Annotations pod k \<longrightarrow> Pod_Annotations pod k = None) \<and>
      (\<forall>c'. res = Inr c' \<longrightarrow> (c' \<longleftrightarrow> Pod_Annotations pod' \<noteq> Pod_Annotations pod)))"
proof (intro conjI impI allI)
  assume a: "CtrAnnotation env pr replica (Ctr_Name (derefCtr pod r)) = Inr (key, value) \<and>
    Pod_Annotations pod key = Some existingValue \<and> existingValue \<noteq> value"
  obtain x y where u: "updateSecurityContext impl env (derefCtr pod r) pr st = (x, y)"
    by (cases "updateSecurityContext impl env (derefCtr pod r) pr st")
  then have x: "x = securedContainer impl env pr (derefCtr pod r)"
    by (rule updateSecurityContext_eqD)
  from a u show "updateCtr impl env podName pr replica r pod podChanged st =
        Inr (assignCtr pod r (securedContainer impl env pr (derefCtr pod r)), podChanged,
             logWrite (LogExistingAnnotation podName existingValue value)
               (snd (updateSecurityContext impl env (derefCtr pod r) pr st)))"
    by (simp add: updateCtr_def Let_def x)
  show "Pod_Annotations (assignCtr pod r (securedContainer impl env pr (derefCtr pod r))) =
        Pod_Annotations pod"
    by simp
next
  fix k v
  assume "updatePod impl env pod podName pr st = (res, pod', st')"
  from updatePod_annotations(1) [OF this] have le: "Pod_Annotations pod \<subseteq>\<^sub>m Pod_Annotations pod'" .
  assume "Pod_Annotations pod k = Some v"
  with le show "Pod_Annotations pod' k = Some v"
    by (metis domI map_le_def)
next
  fix k
  assume "updatePod impl env pod podName pr st = (res, pod', st')"
  from updatePod_annotations(1) [OF this] have le: "Pod_Annotations pod \<subseteq>\<^sub>m Pod_Annotations pod'" .
  assume "Pod_Annotations pod' k \<noteq> Pod_Annotations pod k"
  with le show "Pod_Annotations pod k = None"
    by (metis domIff map_le_def)
next
  fix c'
  assume "updatePod impl env pod podName pr st = (res, pod', st')" and "res = Inr c'"
  then show "c' \<longleftrightarrow> Pod_Annotations pod' \<noteq> Pod_Annotations pod"
    by (rule updatePod_annotations(2))
qed

lemma updatePod_example:
  "updatePod (exampleImpl emptyPod) exampleEnv examplePod ''p1''
     (examplePR\<lparr>PR_Containers := Some [''app'']\<rparr>) (initState emptyStore) =
   (Inr False,
    examplePod\<lparr>Pod_Containers :=
      [\<lparr>Ctr_Name = ''app'', Ctr_SecurityContext = Some
          \<lparr>SC_SeccompProfile = Some \<lparr>Seccomp_Type = ''Localhost'', Seccomp_LocalhostProfile =
             Some ''operator/security-profiles-operator/log-enricher-trace.json''\<rparr>,
           SC_SELinuxOptions = None\<rparr>\<rparr>,
       \<lparr>Ctr_Name = ''sidecar'', Ctr_SecurityContext = None\<rparr>]\<rparr>,
    (initState emptyStore)\<lparr>log :=
      [LogSetSecurityContext ''app'' (Some
          \<lparr>SC_SeccompProfile = Some \<lparr>Seccomp_Type = ''Localhost'', Seccomp_LocalhostProfile =
             Some ''operator/security-profiles-operator/log-enricher-trace.json''\<rparr>,
           SC_SELinuxOptions = None\<rparr>),
       LogExistingAnnotation ''p1'' ''pathA'' ''pathB''],
      mutatorCalls := [(''rec1'', False)]\<rparr>)"
  by (simp add: updatePod_def updatePodBody_def collectCtrs_def shouldRecordContainer_def
      Contains_def getReplica_def updateCtr_def updateSecurityContext_def
      updateSeccompSecurityContext_def SeccompProfileTypeLocalhost_def derefCtr_def assignCtr_def
      logWrite_def returnedPodChanged_def examplePod_def examplePR_def exampleEnv_def
      exampleImpl_def initState_def Let_def)

theorem updatePod_first_writer_wins_witness:
  "CtrAnnotation exampleEnv (examplePR\<lparr>PR_Containers := Some [''app'']\<rparr>) ''''
      (Ctr_Name (derefCtr examplePod (ContainerRef 0))) = Inr (''prefix/rec1_app'', ''pathB'') \<and>
   Pod_Annotations examplePod ''prefix/rec1_app'' = Some ''pathA'' \<and>
   Pod_Annotations (fst (snd (updatePod (exampleImpl emptyPod) exampleEnv examplePod ''p1''
      (examplePR\<lparr>PR_Containers := Some [''app'']\<rparr>) (initState emptyStore))))
      ''prefix/rec1_app'' = Some ''pathA'' \<and>
   fst (updatePod (exampleImpl emptyPod) exampleEnv examplePod ''p1''
      (examplePR\<lparr>PR_Containers := Some [''app'']\<rparr>) (initState emptyStore)) = Inr False \<and>
   Pod_Annotations (fst (snd (updatePod (exampleImpl emptyPod) exampleEnv examplePod ''p1''
      (examplePR\<lparr>PR_Containers := Some [''app'']\<rparr>) (initState emptyStore)))) =
     Pod_Annotations examplePod \<and>
   last (log (snd (snd (updatePod (exampleImpl emptyPod) exampleEnv examplePod ''p1''
      (examplePR\<lparr>PR_Containers := Some [''app'']\<rparr>) (initState emptyStore))))) =
     LogExistingAnnotation ''p1'' ''pathA'' ''pathB''"
proof -
  let ?pr = "examplePR\<lparr>PR_Containers := Some [''app'']\<rparr>"
  let ?u = "updatePod (exampleImpl emptyPod) exampleEnv examplePod ''p1'' ?pr (initState emptyStore)"
  have k: "CtrAnnotation exampleEnv ?pr '''' (Ctr_Name (derefCtr examplePod (ContainerRef 0))) =
      Inr (''prefix/rec1_app'', ''pathB'')"
    by (simp add: exampleEnv_def examplePR_def examplePod_def derefCtr_def)
  have a: "Pod_Annotations examplePod ''prefix/rec1_app'' = Some ''pathA''"
    by (simp add: examplePod_def)
  have r: "fst ?u = Inr False"
    and l: "last (log (snd (snd ?u))) = LogExistingAnnotation ''p1'' ''pathA'' ''pathB''"
    by (simp_all add: updatePod_example)
  have u: "?u = (fst ?u, fst (snd ?u), snd (snd ?u))"
    by simp
  from updatePod_first_writer_wins [of exampleEnv ?pr "''''" examplePod "ContainerRef 0"
      "''prefix/rec1_app''" "''pathB''" "''pathA''" "exampleImpl emptyPod" "''p1''" False
      "initState emptyStore" "fst ?u" "fst (snd ?u)" "snd (snd ?u)"] k a u r
  have "Pod_Annotations (fst (snd ?u)) ''prefix/rec1_app'' = Some ''pathA''"
    and "Pod_Annotations (fst (snd ?u)) = Pod_Annotations examplePod"
    by auto
  with k a r l show ?thesis
    by (intro conjI)
qed

subsection \<open>The security context\<close>

lemma collectCtrs_distinct: "distinct (collectCtrs pod pr)"
  by (auto simp: collectCtrs_def distinct_map inj_on_def)

lemma collectCtrs_valid: "r \<in> set (collectCtrs pod pr) \<Longrightarrow> validRef pod r"
  by (auto simp: collectCtrs_def validRef_def)

lemma collectCtrs_init:
  "InitContainerRef i \<in> set (collectCtrs pod pr) \<longleftrightarrow>
     i < length (Pod_InitContainers pod) \<and>
     shouldRecordContainer (Ctr_Name (Pod_InitContainers pod ! i)) pr"
  by (auto simp: collectCtrs_def)

lemma collectCtrs_ctr:
  "ContainerRef i \<in> set (collectCtrs pod pr) \<longleftrightarrow>
     i < length (Pod_Containers pod) \<and>
     shouldRecordContainer (Ctr_Name (Pod_Containers pod ! i)) pr"
  by (auto simp: collectCtrs_def)

lemma length_eq_by_less: "(\<And>i. i < length xs \<longleftrightarrow> i < length ys) \<Longrightarrow> length xs = length ys"
  by (metis less_irrefl nat_neq_iff)

lemma updatePod_containers:
  assumes "updatePod impl env pod podName pr st = (Inr c, pod', st')"
  shows "Pod_InitContainers pod' =
      map (\<lambda>ctr. if shouldRecordContainer (Ctr_Name ctr) pr
                  then securedContainer impl env pr ctr else ctr) (Pod_InitContainers pod)"
    and "Pod_Containers pod' =
      map (\<lambda>ctr. if shouldRecordContainer (Ctr_Name ctr) pr
                  then securedContainer impl env pr ctr else ctr) (Pod_Containers pod)"
proof -
  from updatePod_unfold [OF assms] obtain replica st1 st2 where
    "updateCtrs impl env podName pr replica (collectCtrs pod pr) pod False st1 = (Inr c, pod', st2)"
    by blast
  from updateCtrs_containers [OF this collectCtrs_distinct] collectCtrs_valid
  have v: "validRef pod' = validRef pod"
    and d: "\<And>r'. derefCtr pod' r' =
      (if r' \<in> set (collectCtrs pod pr) then securedContainer impl env pr (derefCtr pod r')
       else derefCtr pod r')"
    by blast+
  have li: "length (Pod_InitContainers pod') = length (Pod_InitContainers pod)"
    using fun_cong [OF v, of "InitContainerRef i" for i]
    by (intro length_eq_by_less) (simp add: validRef_def)
  have lc: "length (Pod_Containers pod') = length (Pod_Containers pod)"
    using fun_cong [OF v, of "ContainerRef i" for i]
    by (intro length_eq_by_less) (simp add: validRef_def)
  show "Pod_InitContainers pod' =
      map (\<lambda>ctr. if shouldRecordContainer (Ctr_Name ctr) pr
                  then securedContainer impl env pr ctr else ctr) (Pod_InitContainers pod)"
  proof (rule nth_equalityI)
    show "length (Pod_InitContainers pod') = length (map (\<lambda>ctr. if shouldRecordContainer (Ctr_Name ctr) pr
                  then securedContainer impl env pr ctr else ctr) (Pod_InitContainers pod))"
      by (simp add: li)
    fix i
    assume "i < length (Pod_InitContainers pod')"
    with li have i: "i < length (Pod_InitContainers pod)"
      by simp
    with d [of "InitContainerRef i"]
    show "Pod_InitContainers pod' ! i = map (\<lambda>ctr. if shouldRecordContainer (Ctr_Name ctr) pr
                  then securedContainer impl env pr ctr else ctr) (Pod_InitContainers pod) ! i"
      by (simp add: derefCtr_def collectCtrs_init)
  qed
  show "Pod_Containers pod' =
      map (\<lambda>ctr. if shouldRecordContainer (Ctr_Name ctr) pr
                  then securedContainer impl env pr ctr else ctr) (Pod_Containers pod)"
  proof (rule nth_equalityI)
    show "length (Pod_Containers pod') = length (map (\<lambda>ctr. if shouldRecordContainer (Ctr_Name ctr) pr
                  then securedContainer impl env pr ctr else ctr) (Pod_Containers pod))"
      by (simp add: lc)
    fix i
    assume "i < length (Pod_Containers pod')"
    with lc have i: "i < length (Pod_Containers pod)"
      by simp
    with d [of "ContainerRef i"]
    show "Pod_Containers pod' ! i = map (\<lambda>ctr. if shouldRecordContainer (Ctr_Name ctr) pr
                  then securedContainer impl env pr ctr else ctr) (Pod_Containers pod) ! i"
      by (simp add: derefCtr_def collectCtrs_ctr)
  qed
qed

lemma securedContainer_seccomp:
  assumes "PR_Recorder pr = ProfileRecorderLogs" and "PR_Kind pr = ProfileRecordingKindSeccompProfile"
  shows "\<exists>sc sp. Ctr_SecurityContext (securedContainer impl env pr ctr) = Some sc \<and>
    SC_SeccompProfile sc = Some sp \<and> Seccomp_Type sp = SeccompProfileTypeLocalhost \<and>
    Seccomp_LocalhostProfile sp =
      Some (''operator/'' @ GetOperatorNamespace impl @ ''/'' @ LogEnricherProfile env @ ''.json'')"
  using assms by (simp add: securedContainer_def updateSeccompSecurityContext_def Let_def)

lemma securedContainer_selinux:
  assumes "PR_Recorder pr = ProfileRecorderLogs" and "PR_Kind pr = ProfileRecordingKindSelinuxProfile"
  shows "\<exists>sc se. Ctr_SecurityContext (securedContainer impl env pr ctr) = Some sc \<and>
    SC_SELinuxOptions sc = Some se \<and> SELinux_Type se = SelinuxPermissiveProfile env"
  using assms by (simp add: securedContainer_def updateSelinuxSecurityContext_def Let_def)

lemma securedContainer_not_logs:
  "PR_Recorder pr \<noteq> ProfileRecorderLogs \<Longrightarrow> securedContainer impl env pr ctr = ctr"
  by (simp add: securedContainer_def)

text \<open>
  C8. When \<open>updatePod\<close> returns without error, each of the two container lists of the
  pod is the old list with every selected container (\<open>shouldRecordContainer\<close>: all of
  them when the recording's container list is nil, else those whose name is listed)
  replaced by its secured version, whatever annotations the pod carried; the other
  containers are as before. For a recording with recorder Logs and kind Seccomp every
  selected container then has a security context whose seccomp profile has type
  Localhost and the localhost profile
  \<open>operator/<operator namespace>/<log enricher profile>.json\<close>; with kind Selinux its
  SELinux options have the permissive type. For a recorder other than Logs both
  container lists are unchanged.
\<close>

theorem updatePod_security_context:
  assumes "updatePod impl env pod podName pr st = (Inr podChanged, pod', st')"
  shows "Pod_InitContainers pod' =
      map (\<lambda>ctr. if shouldRecordContainer (Ctr_Name ctr) pr
                  then securedContainer impl env pr ctr else ctr) (Pod_InitContainers pod) \<and>
    Pod_Containers pod' =
      map (\<lambda>ctr. if shouldRecordContainer (Ctr_Name ctr) pr
                  then securedContainer impl env pr ctr else ctr) (Pod_Containers pod) \<and>
    (\<forall>name. shouldRecordContainer name pr \<longleftrightarrow>
       (case PR_Containers pr of None \<Rightarrow> True | Some cs \<Rightarrow> name \<in> set cs)) \<and>
    (PR_Recorder pr = ProfileRecorderLogs \<and> PR_Kind pr = ProfileRecordingKindSeccompProfile \<longrightarrow>
       (\<forall>ctr \<in> set (Pod_InitContainers pod') \<union> set (Pod_Containers pod').
          shouldRecordContainer (Ctr_Name ctr) pr \<longrightarrow>
          (\<exists>sc sp. Ctr_SecurityContext ctr = Some sc \<and> SC_SeccompProfile sc = Some sp \<and>
             Seccomp_Type sp = SeccompProfileTypeLocalhost \<and>
             Seccomp_LocalhostProfile sp =
               Some (''operator/'' @ GetOperatorNamespace impl @ ''/'' @ LogEnricherProfile env @
                     ''.json'')))) \<and>
    (PR_Recorder pr = ProfileRecorderLogs \<and> PR_Kind pr = ProfileRecordingKindSelinuxProfile \<longrightarrow>
       (\<forall>ctr \<in> set (Pod_InitContainers pod') \<union> set (Pod_Containers pod').
          shouldRecordContainer (Ctr_Name ctr) pr \<longrightarrow>
          (\<exists>sc se. Ctr_SecurityContext ctr = Some sc \<and> SC_SELinuxOptions sc = Some se \<and>
             SELinux_Type se = SelinuxPermissiveProfile env))) \<and>
    (PR_Recorder pr \<noteq> ProfileRecorderLogs \<longrightarrow>
       Pod_InitContainers pod' = Pod_InitContainers pod \<and> Pod_Containers pod' = Pod_Containers pod)"
proof -
  let ?f = "\<lambda>ctr. if shouldRecordContainer (Ctr_Name ctr) pr
                  then securedContainer impl env pr ctr else ctr"
  note m = updatePod_containers [OF assms]
  have sel: "\<forall>name. shouldRecordContainer name pr \<longleftrightarrow>
       (case PR_Containers pr of None \<Rightarrow> True | Some cs \<Rightarrow> name \<in> set cs)"
    by (simp add: shouldRecordContainer_def Contains_def split: option.splits)
  have mem: "\<exists>old. ctr = securedContainer impl env pr old"
    if "ctr \<in> set (Pod_InitContainers pod') \<union> set (Pod_Containers pod')"
      and "shouldRecordContainer (Ctr_Name ctr) pr" for ctr
  proof -
    from that(1) have "ctr \<in> set (map ?f (Pod_InitContainers pod)) \<union> set (map ?f (Pod_Containers pod))"
      by (simp only: m)
    then have "ctr \<in> ?f ` set (Pod_InitContainers pod) \<union> ?f ` set (Pod_Containers pod)"
      by (simp only: set_map)
    then obtain old where old: "ctr = ?f old"
      by blast
    show ?thesis
    proof (cases "shouldRecordContainer (Ctr_Name old) pr")
      case True
      with old show ?thesis by auto
    next
      case False
      with old that(2) show ?thesis by simp
    qed
  qed
  have seccomp: "PR_Recorder pr = ProfileRecorderLogs \<and> PR_Kind pr = ProfileRecordingKindSeccompProfile \<longrightarrow>
       (\<forall>ctr \<in> set (Pod_InitContainers pod') \<union> set (Pod_Containers pod').
          shouldRecordContainer (Ctr_Name ctr) pr \<longrightarrow>
          (\<exists>sc sp. Ctr_SecurityContext ctr = Some sc \<and> SC_SeccompProfile sc = Some sp \<and>
             Seccomp_Type sp = SeccompProfileTypeLocalhost \<and>
             Seccomp_LocalhostProfile sp =
               Some (''operator/'' @ GetOperatorNamespace impl @ ''/'' @ LogEnricherProfile env @
                     ''.json'')))"
    using mem securedContainer_seccomp [of pr impl env] by blast
  have selinux: "PR_Recorder pr = ProfileRecorderLogs \<and> PR_Kind pr = ProfileRecordingKindSelinuxProfile \<longrightarrow>
       (\<forall>ctr \<in> set (Pod_InitContainers pod') \<union> set (Pod_Containers pod').
          shouldRecordContainer (Ctr_Name ctr) pr \<longrightarrow>
          (\<exists>sc se. Ctr_SecurityContext ctr = Some sc \<and> SC_SELinuxOptions sc = Some se \<and>
             SELinux_Type se = SelinuxPermissiveProfile env))"
    using mem securedContainer_selinux [of pr impl env] by blast
  have other: "PR_Recorder pr \<noteq> ProfileRecorderLogs \<longrightarrow>
       Pod_InitContainers pod' = Pod_InitContainers pod \<and> Pod_Containers pod' = Pod_Containers pod"
    by (simp add: m securedContainer_not_logs cong: if_cong)
  from m sel seccomp selinux other show ?thesis
    by (intro conjI)
qed

theorem updatePod_security_context_witness:
  "updatePod (exampleImpl emptyPod) exampleEnv examplePod ''p1''
      (examplePR\<lparr>PR_Containers := Some [''app'']\<rparr>) (initState emptyStore) =
     (Inr False,
      fst (snd (updatePod (exampleImpl emptyPod) exampleEnv examplePod ''p1''
        (examplePR\<lparr>PR_Containers := Some [''app'']\<rparr>) (initState emptyStore))),
      snd (snd (updatePod (exampleImpl emptyPod) exampleEnv examplePod ''p1''
        (examplePR\<lparr>PR_Containers := Some [''app'']\<rparr>) (initState emptyStore)))) \<and>
   Pod_Containers (fst (snd (updatePod (exampleImpl emptyPod) exampleEnv examplePod ''p1''
      (examplePR\<lparr>PR_Containers := Some [''app'']\<rparr>) (initState emptyStore)))) =
     [\<lparr>Ctr_Name = ''app'', Ctr_SecurityContext = Some
          \<lparr>SC_SeccompProfile = Some \<lparr>Seccomp_Type = ''Localhost'', Seccomp_LocalhostProfile =
             Some ''operator/security-profiles-operator/log-enricher-trace.json''\<rparr>,
           SC_SELinuxOptions = None\<rparr>\<rparr>,
      \<lparr>Ctr_Name = ''sidecar'', Ctr_SecurityContext = None\<rparr>] \<and>
   Pod_Containers (fst (snd (updatePod (exampleImpl emptyPod) exampleEnv examplePod ''p1''
      (examplePR\<lparr>PR_Containers := Some [''app''], PR_Recorder := ProfileRecorderBpf\<rparr>)
      (initState emptyStore)))) = Pod_Containers examplePod"
proof -
  let ?pr = "examplePR\<lparr>PR_Containers := Some [''app'']\<rparr>"
  let ?u = "updatePod (exampleImpl emptyPod) exampleEnv examplePod ''p1'' ?pr (initState emptyStore)"
  let ?pr2 = "examplePR\<lparr>PR_Containers := Some [''app''], PR_Recorder := ProfileRecorderBpf\<rparr>"
  let ?u2 = "updatePod (exampleImpl emptyPod) exampleEnv examplePod ''p1'' ?pr2 (initState emptyStore)"
  have r: "fst ?u = Inr False"
    by (simp add: updatePod_example)
  then have u: "?u = (Inr False, fst (snd ?u), snd (snd ?u))"
    by (metis prod.collapse)
  have "fst ?u2 = Inr False"
    by (simp add: updatePod_def updatePodBody_def collectCtrs_def shouldRecordContainer_def
      Contains_def getReplica_def updateCtr_def updateSecurityContext_def derefCtr_def
      assignCtr_def logWrite_def returnedPodChanged_def examplePod_def examplePR_def
      exampleEnv_def exampleImpl_def initState_def Let_def)
  then have u2: "?u2 = (Inr False, fst (snd ?u2), snd (snd ?u2))"
    by (metis prod.collapse)
  from updatePod_security_context [OF u]
  have "Pod_Containers (fst (snd ?u)) =
      map (\<lambda>ctr. if shouldRecordContainer (Ctr_Name ctr) ?pr
                  then securedContainer (exampleImpl emptyPod) exampleEnv ?pr ctr else ctr)
        (Pod_Containers examplePod)"
    by blast
  then have c1: "Pod_Containers (fst (snd ?u)) =
     [\<lparr>Ctr_Name = ''app'', Ctr_SecurityContext = Some
          \<lparr>SC_SeccompProfile = Some \<lparr>Seccomp_Type = ''Localhost'', Seccomp_LocalhostProfile =
             Some ''operator/security-profiles-operator/log-enricher-trace.json''\<rparr>,
           SC_SELinuxOptions = None\<rparr>\<rparr>,
      \<lparr>Ctr_Name = ''sidecar'', Ctr_SecurityContext = None\<rparr>]"
    by (simp add: examplePod_def examplePR_def shouldRecordContainer_def Contains_def
        securedContainer_def updateSeccompSecurityContext_def SeccompProfileTypeLocalhost_def
        exampleImpl_def exampleEnv_def Let_def)
  have "PR_Recorder ?pr2 \<noteq> ProfileRecorderLogs"
    by simp
  with updatePod_security_context [OF u2]
  have c2: "Pod_Containers (fst (snd ?u2)) = Pod_Containers examplePod"
    by blast
  from u c1 c2 show ?thesis
    by (intro conjI)
qed

subsection \<open>The calls of the mutator in the loop of the handler\<close>

lemma logWrite_fields [simp]:
  "mutatorCalls (logWrite e st) = mutatorCalls st"
  "world (logWrite e st) = world st"
  "replicas (logWrite e st) = replicas st"
  by (simp_all add: logWrite_def)

lemma setRecordingReferences_calls:
  "mutatorCalls (snd (setRecordingReferences impl op pr selector podName podLabels recordedPods st)) =
     mutatorCalls st"
  by (simp add: setRecordingReferences_def setActiveWorkloads_def setFinalizers_def
      cleanupReplicas_def Let_def split: prod.splits sum.splits option.splits)

lemma addPodTracking_calls:
  "mutatorCalls (snd (addPodTracking impl op pr selector podName podLabels recordedPods st)) =
     mutatorCalls st"
  using setRecordingReferences_calls [of impl op pr selector podName podLabels recordedPods st]
  by (auto simp: addPodTracking_def split: prod.splits option.splits)

lemma Retry_preserves:
  "(\<And>s. f (snd (fn s)) = f s) \<Longrightarrow> f (snd (Retry n fn retryCondition s)) = f s"
proof (induction n arbitrary: s)
  case 0
  then show ?case by simp
next
  case (Suc n)
  obtain e s' where r: "fn s = (e, s')"
    by (cases "fn s")
  with Suc.prems [of s] have s': "f s' = f s"
    by simp
  show ?case
  proof (cases e)
    case None
    with r s' show ?thesis by simp
  next
    case (Some err)
    with r s' Suc.IH [OF Suc.prems, of s'] show ?thesis by simp
  qed
qed

lemma updateCtr_calls:
  "updateCtr impl env podName pr replica r pod c st = Inr (pod', c', st') \<Longrightarrow>
   mutatorCalls st' = mutatorCalls st"
  by (auto simp: updateCtr_def updateSecurityContext_def Let_def
      split: sum.splits prod.splits option.splits if_splits)

lemma updateCtrs_calls:
  "updateCtrs impl env podName pr replica rs pod c st = (res, pod', st') \<Longrightarrow>
   mutatorCalls st' = mutatorCalls st"
proof (induction rs arbitrary: pod c st)
  case Nil
  then show ?case by simp
next
  case (Cons r rs)
  show ?case
  proof (cases "updateCtr impl env podName pr replica r pod c st")
    case (Inl err)
    with Cons.prems show ?thesis by simp
  next
    case (Inr t)
    then obtain pod1 c1 st1 where
      step: "updateCtr impl env podName pr replica r pod c st = Inr (pod1, c1, st1)"
      by (cases t) auto
    with Cons.prems have "updateCtrs impl env podName pr replica rs pod1 c1 st1 = (res, pod', st')"
      by simp
    from Cons.IH [OF this] updateCtr_calls [OF step] show ?thesis by simp
  qed
qed

lemma getReplica_calls: "mutatorCalls (snd (getReplica pod pr st)) = mutatorCalls st"
  by (simp add: getReplica_def Let_def split: prod.splits)

lemma updatePod_calls:
  assumes "updatePod impl env pod podName pr st = (res, pod', st')"
  shows "mutatorCalls st' = mutatorCalls st @ [(PR_Name pr, returnedPodChanged res)]"
proof -
  from updatePod_unfold [OF assms] obtain replica st1 st2 where
    g: "getReplica pod pr st = (Inr replica, st1)"
    and u: "updateCtrs impl env podName pr replica (collectCtrs pod pr) pod False st1 = (res, pod', st2)"
    and st': "st' = st2\<lparr>mutatorCalls := mutatorCalls st2 @ [(PR_Name pr, returnedPodChanged res)]\<rparr>"
    by blast
  from getReplica_calls [of pod pr st] g have "mutatorCalls st1 = mutatorCalls st"
    by simp
  with updateCtrs_calls [OF u] st' show ?thesis
    by simp
qed

text \<open>One recording of the loop, when \<open>Handle\<close> does not return early.\<close>

lemma handleItem_calls:
  assumes "handleItem impl env req podName podLabels item pod c st = Inr (pod', c', st')"
  shows "if mutatorInvoked impl env podLabels item
         then mutatorCalls st' = mutatorCalls st @ [(PR_Name item, c')]
         else mutatorCalls st' = mutatorCalls st \<and> pod' = pod \<and> c' = c"
proof (cases "IsKindSupported env item")
  case False
  with assms show ?thesis
    by (auto simp: handleItem_def mutatorInvoked_def)
next
  case True
  note supported = this
  with assms obtain selector where
    sel: "LabelSelectorAsSelector impl (PR_PodSelector item) = Inr selector"
    by (auto simp: handleItem_def split: sum.splits)
  with assms supported obtain recordedPods w where
    lst: "ListRecordedPods impl (Req_Namespace req) (PR_PodSelector item) (world st) =
      (Inr recordedPods, w)"
    by (auto simp: handleItem_def split: sum.splits prod.splits)
  let ?r = "Retry (maxRetries env)
      (addPodTracking impl (Req_Operation req) item selector podName podLabels recordedPods)
      IsConflict (st\<lparr>world := w\<rparr>)"
  from assms supported sel lst obtain st1 where
    retry: "?r = (None, st1)"
    by (auto simp: handleItem_def split: prod.splits option.splits)
  have "mutatorCalls (snd ?r) = mutatorCalls (st\<lparr>world := w\<rparr>)"
    by (rule Retry_preserves) (rule addPodTracking_calls)
  with retry have st1: "mutatorCalls st1 = mutatorCalls st"
    by simp
  have inv: "mutatorInvoked impl env podLabels item = selector podLabels"
    by (simp add: mutatorInvoked_def selectorMatches_def supported sel)
  show ?thesis
  proof (cases "selector podLabels")
    case False
    with assms supported sel lst retry st1 inv show ?thesis
      by (simp add: handleItem_def)
  next
    case True
    with assms supported sel lst retry
    have "updatePod impl env pod podName item st1 = (Inr c', pod', st')"
      by (auto simp: handleItem_def split: prod.splits sum.splits)
    from updatePod_calls [OF this] st1 inv True show ?thesis
      by (simp add: returnedPodChanged_def)
  qed
qed

text \<open>
  The whole loop: \<open>updatePod\<close> is called for the supported recordings whose selector
  matches, in order, and the \<open>podChanged\<close> that leaves the loop is the one that the
  last call returned.
\<close>

lemma handleItems_calls:
  "handleItems impl env req podName podLabels items pod c st = Inr (pod', c', st') \<Longrightarrow>
   \<exists>calls. mutatorCalls st' = mutatorCalls st @ calls \<and>
     map fst calls = map PR_Name (filter (mutatorInvoked impl env podLabels) items) \<and>
     c' = (if calls = [] then c else snd (last calls))"
proof (induction items arbitrary: pod c st)
  case Nil
  then show ?case by simp
next
  case (Cons item items)
  from Cons.prems obtain pod1 c1 st1 where
    step: "handleItem impl env req podName podLabels item pod c st = Inr (pod1, c1, st1)"
    and rest: "handleItems impl env req podName podLabels items pod1 c1 st1 = Inr (pod', c', st')"
    by (auto split: sum.splits)
  from Cons.IH [OF rest] obtain calls where
    ih: "mutatorCalls st' = mutatorCalls st1 @ calls"
      "map fst calls = map PR_Name (filter (mutatorInvoked impl env podLabels) items)"
      "c' = (if calls = [] then c1 else snd (last calls))"
    by blast
  note h = handleItem_calls [OF step]
  show ?case
  proof (cases "mutatorInvoked impl env podLabels item")
    case True
    with h have "mutatorCalls st1 = mutatorCalls st @ [(PR_Name item, c1)]"
      by simp
    with ih True have "mutatorCalls st' = mutatorCalls st @ ((PR_Name item, c1) # calls) \<and>
      map fst ((PR_Name item, c1) # calls) =
        map PR_Name (filter (mutatorInvoked impl env podLabels) (item # items)) \<and>
      c' = (if (PR_Name item, c1) # calls = [] then c else snd (last ((PR_Name item, c1) # calls)))"
      by simp
    then show ?thesis by blast
  next
    case False
    with h have "mutatorCalls st1 = mutatorCalls st" "c1 = c"
      by simp_all
    with ih False have "mutatorCalls st' = mutatorCalls st @ calls \<and>
      map fst calls = map PR_Name (filter (mutatorInvoked impl env podLabels) (item # items)) \<and>
      c' = (if calls = [] then c else snd (last calls))"
      by simp
    then show ?thesis by blast
  qed
qed

text \<open>\<open>Handle\<close> when it does not answer with an error.\<close>

lemma Handle_not_errored:
  assumes "Handle impl env req st = (resp, st')" and "\<not> isErrored resp"
  shows "\<exists>items w pod pod' podChanged.
    ListProfileRecordings impl (Req_Namespace req) (world st) = (Inr items, w) \<and>
    requestPod impl req = Inr pod \<and>
    handleItems impl env req (if Req_Name req = '''' then Pod_GenerateName pod else Req_Name req)
      (Pod_Labels pod) items pod False (st\<lparr>world := w\<rparr>) = Inr (pod', podChanged, st') \<and>
    (if podChanged then \<exists>marshaledPod. Marshal env pod' = Inr marshaledPod \<and>
        resp = PatchResponseFromRaw (Req_Object req) marshaledPod
     else resp = Allowed ''pod unchanged'')"
proof -
  from assms obtain items w where
    l: "ListProfileRecordings impl (Req_Namespace req) (world st) = (Inr items, w)"
    by (cases "ListProfileRecordings impl (Req_Namespace req) (world st)")
      (auto simp: Handle_def isErrored_def split: sum.splits)
  with assms obtain pod where p: "requestPod impl req = Inr pod"
    by (cases "requestPod impl req") (auto simp: Handle_def isErrored_def)
  let ?podName = "if Req_Name req = '''' then Pod_GenerateName pod else Req_Name req"
  let ?h = "handleItems impl env req ?podName (Pod_Labels pod) items pod False (st\<lparr>world := w\<rparr>)"
  have early: "handleItems impl env req podName podLabels its pd c s = Inl (r, s') \<Longrightarrow> isErrored r"
    for podName podLabels its pd c s r s'
  proof (induction its arbitrary: pd c s)
    case Nil
    then show ?case by simp
  next
    case (Cons item its)
    show ?case
    proof (cases "handleItem impl env req podName podLabels item pd c s")
      case (Inl a)
      with Cons.prems have "handleItem impl env req podName podLabels item pd c s = Inl (r, s')"
        by simp
      then show ?thesis
        by (auto simp: handleItem_def isErrored_def
            split: if_splits sum.splits prod.splits option.splits)
    next
      case (Inr t)
      with Cons.prems Cons.IH show ?thesis
        by (cases t) auto
    qed
  qed
  from assms l p early [of ?podName "Pod_Labels pod" items pod False "st\<lparr>world := w\<rparr>"]
  obtain pod' podChanged st2 where h: "?h = Inr (pod', podChanged, st2)"
    by (cases ?h) (auto simp: Handle_def Let_def)
  with assms l p have "st2 = st'" and
    "if podChanged then \<exists>marshaledPod. Marshal env pod' = Inr marshaledPod \<and>
        resp = PatchResponseFromRaw (Req_Object req) marshaledPod
     else resp = Allowed ''pod unchanged''"
    by (auto simp: Handle_def Let_def isErrored_def split: sum.splits if_splits)
  with l p h show ?thesis
    by blast
qed

subsection \<open>When the mutator is called\<close>

text \<open>
  C3, as the code has it. In a request that \<open>Handle\<close> does not answer with an error,
  \<open>updatePod\<close> is called once for each supported recording of the namespace whose
  selector matches the labels of the pod, in the order of the list, and for no other
  recording. The operation plays no part: on Delete the pod is the empty pod, and
  a selector that matches the empty label set leads to the call.
\<close>

theorem Handle_mutator_calls:
  assumes "Handle impl env req st = (resp, st')" and "\<not> isErrored resp"
    and "ListProfileRecordings impl (Req_Namespace req) (world st) = (Inr items, w)"
    and "requestPod impl req = Inr pod"
  shows "\<exists>calls. mutatorCalls st' = mutatorCalls st @ calls \<and>
    map fst calls = map PR_Name
      (filter (\<lambda>item. IsKindSupported env item \<and> selectorMatches impl item (Pod_Labels pod)) items)"
proof -
  from Handle_not_errored [OF assms(1,2)] assms(3,4) obtain pod' podChanged where
    hi: "handleItems impl env req (if Req_Name req = '''' then Pod_GenerateName pod else Req_Name req)
      (Pod_Labels pod) items pod False (st\<lparr>world := w\<rparr>) = Inr (pod', podChanged, st')"
    by auto
  from handleItems_calls [OF hi] obtain calls where
    c: "mutatorCalls st' = mutatorCalls (st\<lparr>world := w\<rparr>) @ calls"
      "map fst calls = map PR_Name (filter (mutatorInvoked impl env (Pod_Labels pod)) items)"
    by blast
  have mi: "mutatorInvoked impl env (Pod_Labels pod) =
      (\<lambda>item. IsKindSupported env item \<and> selectorMatches impl item (Pod_Labels pod))"
    by (rule ext) (simp add: mutatorInvoked_def)
  from c show ?thesis
    unfolding mi by (intro exI [of _ calls]) simp
qed

theorem Handle_mutator_calls_witness:
  "\<not> isErrored (fst (Handle (exampleImpl examplePod) exampleEnv (exampleRequest Create)
      (initState (exampleStore [examplePR,
         examplePR\<lparr>PR_Name := ''rec3'',
           PR_PodSelector := \<lparr>MatchLabels = [(''app'', ''db'')], MatchExpressions = []\<rparr>\<rparr>])))) \<and>
   map fst (mutatorCalls (snd (Handle (exampleImpl examplePod) exampleEnv (exampleRequest Create)
      (initState (exampleStore [examplePR,
         examplePR\<lparr>PR_Name := ''rec3'',
           PR_PodSelector := \<lparr>MatchLabels = [(''app'', ''db'')], MatchExpressions = []\<rparr>\<rparr>]))))) =
     [''rec1'']"
proof -
  let ?rec3 = "examplePR\<lparr>PR_Name := ''rec3'',
      PR_PodSelector := \<lparr>MatchLabels = [(''app'', ''db'')], MatchExpressions = []\<rparr>\<rparr>"
  let ?st = "initState (exampleStore [examplePR, ?rec3])"
  let ?h = "Handle (exampleImpl examplePod) exampleEnv (exampleRequest Create) ?st"
  have h: "?h = (fst ?h, snd ?h)"
    by simp
  have e: "\<not> isErrored (fst ?h)"
    by code_simp
  have l: "ListProfileRecordings (exampleImpl examplePod) (Req_Namespace (exampleRequest Create))
      (world ?st) = (Inr [examplePR, ?rec3], exampleStore [examplePR, ?rec3])"
    by (simp add: exampleImpl_def exampleRequest_def initState_def exampleStore_def examplePR_def)
  have p: "requestPod (exampleImpl examplePod) (exampleRequest Create) = Inr examplePod"
    by (simp add: requestPod_def exampleImpl_def exampleRequest_def)
  have f: "filter (\<lambda>item. IsKindSupported exampleEnv item \<and>
      selectorMatches (exampleImpl examplePod) item (Pod_Labels examplePod)) [examplePR, ?rec3] =
      [examplePR]"
    by (simp add: exampleEnv_def selectorMatches_def exampleImpl_def selectorOf_def
        examplePod_def examplePR_def)
  from Handle_mutator_calls [OF h e l p] f
  have "map fst (mutatorCalls (snd ?h)) = [''rec1'']"
    by (auto simp: initState_def examplePR_def)
  with e show ?thesis
    by (intro conjI)
qed

text \<open>
  C3 as stated fails: it has no call of the mutator on Delete. A Delete request in a
  namespace with a supported recording whose selector is empty (it matches every label
  set, also the empty one) calls \<open>updatePod\<close> for that recording.
\<close>

theorem Handle_Delete_calls_mutator_counterexample:
  "Req_Operation (exampleRequest Delete) = Delete \<and>
   IsKindSupported exampleEnv examplePR \<and>
   fst (Handle (exampleImpl examplePod) exampleEnv (exampleRequest Delete)
      (initState (exampleStore [examplePR]))) = Allowed ''pod unchanged'' \<and>
   mutatorCalls (snd (Handle (exampleImpl examplePod) exampleEnv (exampleRequest Delete)
      (initState (exampleStore [examplePR])))) = [(''rec1'', False)]"
  by code_simp

subsection \<open>The decision of the handler\<close>

text \<open>
  What decides the answer: \<open>podChanged\<close> is assigned by every call of \<open>updatePod\<close>, so
  a request that is not answered with an error gets a patch exactly when the last call
  of the mutator returned true.
\<close>

lemma Handle_patch_iff_last_call:
  assumes "Handle impl env req st = (resp, st')" and "\<not> isErrored resp"
  shows "\<exists>calls. mutatorCalls st' = mutatorCalls st @ calls \<and>
    (isPatch resp \<longleftrightarrow> calls \<noteq> [] \<and> snd (last calls)) \<and>
    (\<not> isPatch resp \<longleftrightarrow> resp = Allowed ''pod unchanged'')"
proof -
  from Handle_not_errored [OF assms] obtain items w pod pod' podChanged where
    hi: "handleItems impl env req (if Req_Name req = '''' then Pod_GenerateName pod else Req_Name req)
      (Pod_Labels pod) items pod False (st\<lparr>world := w\<rparr>) = Inr (pod', podChanged, st')"
    and r: "if podChanged then \<exists>marshaledPod. Marshal env pod' = Inr marshaledPod \<and>
        resp = PatchResponseFromRaw (Req_Object req) marshaledPod
     else resp = Allowed ''pod unchanged''"
    by blast
  from handleItems_calls [OF hi] obtain calls where
    c: "mutatorCalls st' = mutatorCalls (st\<lparr>world := w\<rparr>) @ calls"
      "podChanged = (if calls = [] then False else snd (last calls))"
    by blast
  from r have "isPatch resp \<longleftrightarrow> podChanged" "\<not> isPatch resp \<longleftrightarrow> resp = Allowed ''pod unchanged''"
    by (auto simp: isPatch_def split: if_splits)
  with c show ?thesis
    by (intro exI [of _ calls]) auto
qed

text \<open>
  C2 on a concrete request. Two supported recordings match the pod \<open>p1\<close>. The mutator
  for \<open>rec1\<close> sets the missing annotation of the container \<open>sidecar\<close> and returns true;
  the mutator for \<open>rec2\<close>, which lists a container the pod does not have, returns
  false. \<open>Handle\<close> answers "pod unchanged", not with a patch.
\<close>

theorem Handle_second_recording_unchanged:
  "fst (Handle (exampleImpl examplePod) exampleEnv (exampleRequest Create)
      (initState (exampleStore [examplePR,
         examplePR\<lparr>PR_Name := ''rec2'', PR_Containers := Some [''other'']\<rparr>]))) =
     Allowed ''pod unchanged'' \<and>
   mutatorCalls (snd (Handle (exampleImpl examplePod) exampleEnv (exampleRequest Create)
      (initState (exampleStore [examplePR,
         examplePR\<lparr>PR_Name := ''rec2'', PR_Containers := Some [''other'']\<rparr>])))) =
     [(''rec1'', True), (''rec2'', False)] \<and>
   fst (Handle (exampleImpl examplePod) exampleEnv (exampleRequest Create)
      (initState (exampleStore [examplePR]))) = PatchResponseFromRaw ''raw'' ''pod''"
  by code_simp

subsection \<open>Delete requests\<close>

lemma updatePod_emptyPod:
  "updatePod impl env emptyPod podName pr st =
     (Inr False, emptyPod, st\<lparr>mutatorCalls := mutatorCalls st @ [(PR_Name pr, False)]\<rparr>)"
  by (simp add: updatePod_def updatePodBody_def collectCtrs_def getReplica_def emptyPod_def
      returnedPodChanged_def)

lemma handleItem_emptyPod:
  "handleItem impl env req podName podLabels item emptyPod False st = Inr (pod', c', st') \<Longrightarrow>
   pod' = emptyPod \<and> c' = False"
  by (auto simp: handleItem_def updatePod_emptyPod
      split: if_splits sum.splits prod.splits option.splits)

lemma handleItems_emptyPod:
  "handleItems impl env req podName podLabels items emptyPod False st = Inr (pod', c', st') \<Longrightarrow>
   pod' = emptyPod \<and> c' = False"
proof (induction items arbitrary: st)
  case Nil
  then show ?case by simp
next
  case (Cons item items)
  from Cons.prems obtain pod1 c1 st1 where
    step: "handleItem impl env req podName podLabels item emptyPod False st = Inr (pod1, c1, st1)"
    and rest: "handleItems impl env req podName podLabels items pod1 c1 st1 = Inr (pod', c', st')"
    by (auto split: sum.splits)
  from handleItem_emptyPod [OF step] rest
  have "handleItems impl env req podName podLabels items emptyPod False st1 = Inr (pod', c', st')"
    by simp
  then show ?case
    by (rule Cons.IH)
qed

text \<open>
  C10. On Delete the pod is not decoded: \<open>Handle\<close> works on the empty pod (no name, no
  generate-name, no labels, no containers), whatever \<open>DecodePod\<close> would return. A call
  of \<open>updatePod\<close> on the empty pod collects no container, leaves the pod and the
  counters as they are and returns false. So the answer to a Delete request is never
  a patch, and when it is not an error it is "pod unchanged".
\<close>

theorem Handle_Delete_unchanged:
  assumes "Req_Operation req = Delete" and "Handle impl env req st = (resp, st')"
  shows "\<not> isPatch resp \<and>
    (\<not> isErrored resp \<longrightarrow> resp = Allowed ''pod unchanged'') \<and>
    (\<forall>d. requestPod (impl\<lparr>DecodePod := d\<rparr>) req = Inr emptyPod) \<and>
    Pod_GenerateName emptyPod = '''' \<and> Pod_Labels emptyPod = Map.empty \<and>
    Pod_InitContainers emptyPod = [] \<and> Pod_Containers emptyPod = [] \<and>
    (\<forall>podName pr st0. collectCtrs emptyPod pr = [] \<and>
       updatePod impl env emptyPod podName pr st0 =
         (Inr False, emptyPod, st0\<lparr>mutatorCalls := mutatorCalls st0 @ [(PR_Name pr, False)]\<rparr>))"
proof -
  have p: "requestPod impl req = Inr emptyPod"
    using assms(1) by (simp add: requestPod_def)
  have ok: "resp = Allowed ''pod unchanged''" if "\<not> isErrored resp"
  proof -
    from Handle_not_errored [OF assms(2) that] p obtain items w pod' podChanged where
      hi: "handleItems impl env req
        (if Req_Name req = '''' then Pod_GenerateName emptyPod else Req_Name req)
        (Pod_Labels emptyPod) items emptyPod False (st\<lparr>world := w\<rparr>) = Inr (pod', podChanged, st')"
      and r: "if podChanged then \<exists>marshaledPod. Marshal env pod' = Inr marshaledPod \<and>
          resp = PatchResponseFromRaw (Req_Object req) marshaledPod
        else resp = Allowed ''pod unchanged''"
      by auto
    from handleItems_emptyPod [OF hi] r show ?thesis
      by simp
  qed
  then have "\<not> isPatch resp"
    by (cases resp) (auto simp: isPatch_def isErrored_def)
  moreover have "\<forall>d. requestPod (impl\<lparr>DecodePod := d\<rparr>) req = Inr emptyPod"
    using assms(1) by (simp add: requestPod_def)
  moreover have "Pod_GenerateName emptyPod = '''' \<and> Pod_Labels emptyPod = Map.empty \<and>
    Pod_InitContainers emptyPod = [] \<and> Pod_Containers emptyPod = []"
    by (simp add: emptyPod_def)
  moreover have "\<forall>podName pr st0. collectCtrs emptyPod pr = [] \<and>
       updatePod impl env emptyPod podName pr st0 =
         (Inr False, emptyPod, st0\<lparr>mutatorCalls := mutatorCalls st0 @ [(PR_Name pr, False)]\<rparr>)"
    by (simp add: updatePod_emptyPod) (simp add: collectCtrs_def emptyPod_def)
  ultimately show ?thesis
    using ok by blast
qed

theorem Handle_Delete_unchanged_witness:
  "Req_Operation (exampleRequest Delete) = Delete \<and>
   \<not> isErrored (fst (Handle (exampleImpl examplePod) exampleEnv (exampleRequest Delete)
      (initState (exampleStore [examplePR])))) \<and>
   fst (Handle (exampleImpl examplePod) exampleEnv (exampleRequest Delete)
      (initState (exampleStore [examplePR]))) = Allowed ''pod unchanged''"
proof -
  let ?h = "Handle (exampleImpl examplePod) exampleEnv (exampleRequest Delete)
      (initState (exampleStore [examplePR]))"
  have d: "Req_Operation (exampleRequest Delete) = Delete"
    by (simp add: exampleRequest_def)
  have h: "?h = (fst ?h, snd ?h)"
    by simp
  have e: "\<not> isErrored (fst ?h)"
    by code_simp
  from Handle_Delete_unchanged [OF d h] e have "fst ?h = Allowed ''pod unchanged''"
    by blast
  with d e show ?thesis
    by (intro conjI)
qed

end
